theory Spec2Isabelle
  imports Complex_Main "HOL-Library.Word" "HOL-Library.List_Lexorder"
begin

unbundle bit_operations_syntax

section \<open>Bytes, errors and varints\<close>

type_synonym byte = "8 word"
type_synonym bytes = "byte list"

text \<open>
  Errors are values. \<open>Panic\<close> stands for a Go \<^verbatim>\<open>panic\<close>; its string is the
  panic message (or the name of the runtime error).
\<close>

datatype error =
    ErrNotIndexed
  | ErrInvalidBatch
  | ErrNotFound
  | ErrCorruptedBatch
  | ErrArenaFull
  | ErrCorruptLog
  | ErrOther string
  | Panic string

text \<open>
  \<^verbatim>\<open>db.Compare\<close> for the default comparer is \<^verbatim>\<open>bytes.Compare\<close>: the lexicographic
  order of unsigned bytes, which is the order of \<^typ>\<open>bytes\<close>. The three-way result is
  \<open>-1\<close>, \<open>0\<close> or \<open>1\<close>.
\<close>

definition compare3 :: "'k::linorder \<Rightarrow> 'k \<Rightarrow> int" where
  "compare3 a b = (if a < b then -1 else if a = b then 0 else 1)"

text \<open>
  \<^verbatim>\<open>binary.MaxVarintLen64\<close>, \<^verbatim>\<open>binary.PutUvarint\<close> and \<^verbatim>\<open>binary.Uvarint\<close> of Go's
  \<^verbatim>\<open>encoding/binary\<close>. \<open>PutUvarint x\<close> is the written prefix \<^verbatim>\<open>buf[:n]\<close>.
  \<open>Uvarint\<close> returns the value and the number of bytes read; that number is \<open>0\<close> when the
  buffer is too small and negative on a 64-bit overflow.
\<close>

definition MaxVarintLen64 :: nat where
  "MaxVarintLen64 = 10"

function PutUvarint :: "64 word \<Rightarrow> bytes" where
  "PutUvarint x =
     (if 0x80 \<le> x then (ucast x OR 0x80) # PutUvarint (drop_bit 7 x) else [ucast x])"
  by pat_completeness auto
termination
proof (relation "measure unat")
  show "wf (measure unat)" by simp
next
  fix x :: "64 word"
  assume a: "0x80 \<le> x"
  have "unat x \<noteq> 0" using a by (auto simp: word_le_nat_alt)
  then have "unat x div 2 ^ 7 < unat x" by simp
  then show "(drop_bit 7 x, x) \<in> measure unat"
    by (simp add: drop_bit_eq_div unat_div)
qed

fun uvarint_loop :: "bytes \<Rightarrow> nat \<Rightarrow> 64 word \<Rightarrow> nat \<Rightarrow> 64 word \<times> int" where
  "uvarint_loop [] i x s = (0, 0)"
| "uvarint_loop (b # buf) i x s =
     (if i = MaxVarintLen64 then (0, - (int i + 1))
      else if b < 0x80 then
        (if i = MaxVarintLen64 - 1 \<and> 1 < b then (0, - (int i + 1))
         else (x OR push_bit s (ucast b), int i + 1))
      else uvarint_loop buf (i + 1) (x OR push_bit s (ucast (b AND 0x7f))) (s + 7))"

definition Uvarint :: "bytes \<Rightarrow> 64 word \<times> int" where
  "Uvarint buf = uvarint_loop buf 0 0 0"

section \<open>Internal keys\<close>

text \<open>
  Modelled from the spec: package \<^verbatim>\<open>db\<close> (internal keys and their kinds) is not under
  src. An internal key is a user key and a trailer \<open>(seq_num << 8) | kind\<close>, with
  \<open>DELETE = 0\<close>, \<open>SET = 1\<close>, \<open>MERGE = 2\<close>, \<open>RANGE_DELETE = 15\<close>.
\<close>

type_synonym InternalKeyKind = byte

definition InternalKeyKindDelete :: InternalKeyKind where
  "InternalKeyKindDelete = 0"

definition InternalKeyKindSet :: InternalKeyKind where
  "InternalKeyKindSet = 1"

definition InternalKeyKindMerge :: InternalKeyKind where
  "InternalKeyKindMerge = 2"

definition InternalKeyKindRangeDelete :: InternalKeyKind where
  "InternalKeyKindRangeDelete = 15"

record 'k InternalKey =
  UserKey :: 'k
  Trailer :: "64 word"

definition MakeInternalKey :: "'k \<Rightarrow> 64 word \<Rightarrow> InternalKeyKind \<Rightarrow> 'k InternalKey" where
  "MakeInternalKey ukey seqNum kind =
     \<lparr>UserKey = ukey, Trailer = push_bit 8 seqNum OR ucast kind\<rparr>"

definition Kind :: "'k InternalKey \<Rightarrow> InternalKeyKind" where
  "Kind k = ucast (Trailer k AND 0xff)"

definition SeqNum :: "'k InternalKey \<Rightarrow> 64 word" where
  "SeqNum k = drop_bit 8 (Trailer k)"

definition SetKind :: "'k InternalKey \<Rightarrow> InternalKeyKind \<Rightarrow> 'k InternalKey" where
  "SetKind k kind = k\<lparr>Trailer := push_bit 8 (drop_bit 8 (Trailer k)) OR ucast kind\<rparr>"

text \<open>The bit that marks a sequence number as an offset into an unapplied batch.\<close>

definition InternalKeySeqNumBatch :: "64 word" where
  "InternalKeySeqNumBatch = push_bit 55 1"

section \<open>Batch\<close>

definition batchHeaderLen :: nat where
  "batchHeaderLen = 12"

definition invalidBatchCount :: "32 word" where
  "invalidBatchCount = 0xffffffff"

text \<open>
  The batch: \<open>data\<close> is the wire format, \<open>cmp\<close> the comparer of the embedded
  \<^verbatim>\<open>batchStorage\<close>, \<open>index\<close> the optional skiplist (\<open>None\<close> is the nil pointer).

  Modelled from the spec: package \<^verbatim>\<open>batchskl\<close> is not under src. The skiplist is an
  ordered multimap of entry offsets; it is the list of its offsets in iteration order.
\<close>

record Batch =
  data :: bytes
  cmp :: "bytes \<Rightarrow> bytes \<Rightarrow> int"
  memTableSize :: "32 word"
  index :: "32 word list option"

definition batchDecodeStr :: "bytes \<Rightarrow> (bytes \<times> bytes) option" where
  "batchDecodeStr d =
     (case Uvarint d of (v, n) \<Rightarrow>
        if n \<le> 0 then None
        else let d' = drop (nat n) d in
          if length d' < unat v then None
          else Some (drop (unat v) d', take (unat v) d'))"

text \<open>\<^verbatim>\<open>batchStorage.Get\<close>: the internal key of the entry at an offset.\<close>

definition storage_Get :: "bytes \<Rightarrow> 32 word \<Rightarrow> error + bytes InternalKey" where
  "storage_Get d offset =
     (if length d \<le> unat offset then Inl (Panic ''index out of range'')
      else if length d < unat (offset + 1) then Inl (Panic ''slice bounds out of range'')
      else case batchDecodeStr (drop (unat (offset + 1)) d) of
             None \<Rightarrow> Inl (Panic ''corrupted batch entry'')
           | Some (_, key) \<Rightarrow>
               Inr (MakeInternalKey key (ucast offset OR InternalKeySeqNumBatch) (d ! unat offset)))"

text \<open>
  \<^verbatim>\<open>batchStorage.Compare\<close>: the search key or newer key \<open>a\<close> against the entry at offset
  \<open>b\<close>; an equal key counts as smaller, so that it sorts first.
\<close>

definition storage_Compare :: "Batch \<Rightarrow> bytes \<Rightarrow> 32 word \<Rightarrow> error + int" where
  "storage_Compare s a b =
     (case storage_Get (data s) b of
        Inl e \<Rightarrow> Inl e
      | Inr k \<Rightarrow> Inr (if cmp s a (UserKey k) \<le> 0 then -1 else 1))"

text \<open>
  Modelled from the spec: \<^verbatim>\<open>Skiplist.Add\<close> and the iterator's \<^verbatim>\<open>SeekGE\<close> of the
  absent package \<^verbatim>\<open>batchskl\<close>. \<open>skl_splice\<close> walks the list while the key compares
  greater than the node, and returns the nodes passed and the nodes from the first one
  that the key does not compare greater than. \<open>Add\<close> links the new offset between the
  two and reports a node that compares equal as already existing; \<open>SeekGE\<close> positions
  the iterator on the second part.
\<close>

datatype splice = Splice "32 word list" "32 word list" bool

fun skl_splice :: "Batch \<Rightarrow> bytes \<Rightarrow> 32 word list \<Rightarrow> error + splice" where
  "skl_splice s key [] = Inr (Splice [] [] False)"
| "skl_splice s key (n # ns) =
     (case storage_Compare s key n of
        Inl e \<Rightarrow> Inl e
      | Inr c \<Rightarrow>
          if c = 0 then Inr (Splice [] (n # ns) True)
          else if c < 0 then Inr (Splice [] (n # ns) False)
          else (case skl_splice s key ns of
                  Inl e \<Rightarrow> Inl e
                | Inr (Splice before after found) \<Rightarrow> Inr (Splice (n # before) after found)))"

definition skl_Add :: "Batch \<Rightarrow> 32 word list \<Rightarrow> 32 word \<Rightarrow> error + 32 word list" where
  "skl_Add s l offset =
     (case storage_Get (data s) offset of
        Inl e \<Rightarrow> Inl e
      | Inr k \<Rightarrow>
          (case skl_splice s (UserKey k) l of
             Inl e \<Rightarrow> Inl e
           | Inr (Splice before after found) \<Rightarrow>
               if found then Inl (ErrOther ''record with this key already exists'')
               else Inr (before @ offset # after)))"

definition skl_SeekGE :: "Batch \<Rightarrow> 32 word list \<Rightarrow> bytes \<Rightarrow> error + 32 word list" where
  "skl_SeekGE s l key =
     (case skl_splice s key l of
        Inl e \<Rightarrow> Inl e
      | Inr (Splice before after found) \<Rightarrow> Inr after)"

text \<open>
  \<^verbatim>\<open>Batch.init\<close> makes the 12-byte zero header; the capacity it computes has no effect
  on the contents and is not modelled.
\<close>

definition init :: "Batch \<Rightarrow> Batch" where
  "init b = b\<lparr>data := replicate batchHeaderLen 0\<rparr>"

definition seqNumData :: "Batch \<Rightarrow> bytes" where
  "seqNumData b = take 8 (data b)"

definition countData :: "Batch \<Rightarrow> bytes" where
  "countData b = take 4 (drop 8 (data b))"

text \<open>Writing through the slice \<^verbatim>\<open>b.data[8:12]\<close> changes \<^verbatim>\<open>b.data\<close> itself.\<close>

definition putCountData :: "Batch \<Rightarrow> bytes \<Rightarrow> Batch" where
  "putCountData b p = b\<lparr>data := take 8 (data b) @ p @ drop 12 (data b)\<rparr>"

text \<open>
  The loop of \<^verbatim>\<open>Batch.increment\<close> over the count bytes: add one to each byte in turn
  and stop at the first that does not wrap to zero.
\<close>

fun increment_loop :: "bytes \<Rightarrow> bytes \<times> bool" where
  "increment_loop [] = ([], False)"
| "increment_loop (x # p) =
     (if x + 1 \<noteq> 0 then ((x + 1) # p, True)
      else (case increment_loop p of (p', ok) \<Rightarrow> (0 # p', ok)))"

text \<open>
  \<^verbatim>\<open>Batch.increment\<close>. A buffer shorter than the header cannot be sliced to
  \<^verbatim>\<open>[8:12]\<close> (capacities are not modelled: every batch buffer is empty or holds a
  header).
\<close>

definition increment :: "Batch \<Rightarrow> error + (Batch \<times> bool)" where
  "increment b =
     (if length (data b) < batchHeaderLen then Inl (Panic ''slice bounds out of range'')
      else case increment_loop (countData b) of
             (p, ok) \<Rightarrow>
               if ok then Inr (putCountData b p, True)
               else Inr (putCountData b [0xff, 0xff, 0xff, 0xff], False))"

definition appendStr :: "Batch \<Rightarrow> bytes \<Rightarrow> Batch" where
  "appendStr b s = b\<lparr>data := data b @ PutUvarint (of_nat (length s)) @ s\<rparr>"

text \<open>Little-endian reading and writing of the header fields.\<close>

fun le_uint :: "bytes \<Rightarrow> nat" where
  "le_uint [] = 0"
| "le_uint (x # xs) = unat x + 256 * le_uint xs"

definition count :: "Batch \<Rightarrow> 32 word" where
  "count b = of_nat (le_uint (countData b))"

definition seqNum :: "Batch \<Rightarrow> 64 word" where
  "seqNum b = of_nat (le_uint (seqNumData b))"

fun le_put :: "nat \<Rightarrow> nat \<Rightarrow> bytes" where
  "le_put 0 v = []"
| "le_put (Suc n) v = of_nat (v mod 256) # le_put n (v div 256)"

definition setCount :: "Batch \<Rightarrow> 32 word \<Rightarrow> Batch" where
  "setCount b v = putCountData b (le_put 4 (unat v))"

definition setSeqNum :: "Batch \<Rightarrow> 64 word \<Rightarrow> Batch" where
  "setSeqNum b v = b\<lparr>data := le_put 8 (unat v) @ drop 8 (data b)\<rparr>"

text \<open>
  The index insertion shared by the mutators: nothing for a batch without index, a
  panic when the skiplist reports an error.
\<close>

definition index_Add :: "Batch \<Rightarrow> 32 word \<Rightarrow> error + Batch" where
  "index_Add b offset =
     (case index b of
        None \<Rightarrow> Inr b
      | Some l \<Rightarrow>
          (case skl_Add b l offset of
             Inl (Panic m) \<Rightarrow> Inl (Panic m)
           | Inl e \<Rightarrow> Inl (Panic ''skiplist add'')
           | Inr l' \<Rightarrow> Inr (b\<lparr>index := Some l'\<rparr>)))"

text \<open>
  The mutators. \<open>mes\<close> is \<^verbatim>\<open>memTableEntrySize\<close>, which is not under src. The result is
  the batch after the call and the error returned, if any.
\<close>

type_synonym entrySize = "nat \<Rightarrow> nat \<Rightarrow> 32 word"

definition Set :: "entrySize \<Rightarrow> Batch \<Rightarrow> bytes \<Rightarrow> bytes \<Rightarrow> Batch \<times> error option" where
  "Set mes b0 key val =
     (let b = (if length (data b0) = 0 then init b0 else b0) in
      case increment b of
        Inl e \<Rightarrow> (b, Some e)
      | Inr (b, ok) \<Rightarrow>
          if \<not> ok then (b, Some ErrInvalidBatch)
          else
            let offset = (of_nat (length (data b)) :: 32 word);
                b = b\<lparr>data := data b @ [InternalKeyKindSet]\<rparr>;
                b = appendStr b key;
                b = appendStr b val
            in (case index_Add b offset of
                 Inl e \<Rightarrow> (b, Some e)
               | Inr b \<Rightarrow>
                   (b\<lparr>memTableSize := memTableSize b + mes (length key) (length val)\<rparr>, None)))"

definition Merge :: "entrySize \<Rightarrow> Batch \<Rightarrow> bytes \<Rightarrow> bytes \<Rightarrow> Batch \<times> error option" where
  "Merge mes b0 key val =
     (let b = (if length (data b0) = 0 then init b0 else b0) in
      case increment b of
        Inl e \<Rightarrow> (b, Some e)
      | Inr (b, ok) \<Rightarrow>
          if \<not> ok then (b, Some ErrInvalidBatch)
          else
            let offset = (of_nat (length (data b)) :: 32 word);
                b = b\<lparr>data := data b @ [InternalKeyKindMerge]\<rparr>;
                b = appendStr b key;
                b = appendStr b val
            in (case index_Add b offset of
                 Inl e \<Rightarrow> (b, Some e)
               | Inr b \<Rightarrow>
                   (b\<lparr>memTableSize := memTableSize b + mes (length key) (length val)\<rparr>, None)))"

definition Delete :: "entrySize \<Rightarrow> Batch \<Rightarrow> bytes \<Rightarrow> Batch \<times> error option" where
  "Delete mes b0 key =
     (let b = (if length (data b0) = 0 then init b0 else b0) in
      case increment b of
        Inl e \<Rightarrow> (b, Some e)
      | Inr (b, ok) \<Rightarrow>
          if \<not> ok then (b, Some ErrInvalidBatch)
          else
            let offset = (of_nat (length (data b)) :: 32 word);
                b = b\<lparr>data := data b @ [InternalKeyKindDelete]\<rparr>;
                b = appendStr b key
            in (case index_Add b offset of
                 Inl e \<Rightarrow> (b, Some e)
               | Inr b \<Rightarrow>
                   (b\<lparr>memTableSize := memTableSize b + mes (length key) 0\<rparr>, None)))"

definition DeleteRange :: "entrySize \<Rightarrow> Batch \<Rightarrow> bytes \<Rightarrow> bytes \<Rightarrow> Batch \<times> error option" where
  "DeleteRange mes b0 start end =
     (let b = (if length (data b0) = 0 then init b0 else b0) in
      case increment b of
        Inl e \<Rightarrow> (b, Some e)
      | Inr (b, ok) \<Rightarrow>
          if \<not> ok then (b, Some ErrInvalidBatch)
          else
            let offset = (of_nat (length (data b)) :: 32 word);
                b = b\<lparr>data := data b @ [InternalKeyKindRangeDelete]\<rparr>;
                b = appendStr b start;
                b = appendStr b end
            in (case index_Add b offset of
                 Inl e \<Rightarrow> (b, Some e)
               | Inr b \<Rightarrow>
                   (b\<lparr>memTableSize := memTableSize b + mes (length start) (length end)\<rparr>, None)))"

text \<open>
  \<^verbatim>\<open>newBatch\<close> and \<^verbatim>\<open>newIndexedBatch\<close>: a pooled batch is the zero value; the indexed
  one has the comparer set and an empty skiplist.
\<close>

definition newBatch :: Batch where
  "newBatch = \<lparr>data = [], cmp = (\<lambda>_ _. 0), memTableSize = 0, index = None\<rparr>"

definition newIndexedBatch :: "(bytes \<Rightarrow> bytes \<Rightarrow> int) \<Rightarrow> Batch" where
  "newIndexedBatch c = \<lparr>data = [], cmp = c, memTableSize = 0, index = Some []\<rparr>"

subsection \<open>Reading a batch\<close>

text \<open>
  \<^verbatim>\<open>InternalKeyKindMax\<close> is declared in the absent package \<^verbatim>\<open>db\<close>; the readers take it
  as the parameter \<open>kmax\<close>. A nil value is \<open>None\<close>.
\<close>

type_synonym entry = "InternalKeyKind \<times> bytes \<times> bytes option"

definition decode :: "InternalKeyKind \<Rightarrow> Batch \<Rightarrow> 32 word \<Rightarrow> error + entry option" where
  "decode kmax b offset =
     (if length (data b) < unat offset then Inl (Panic ''slice bounds out of range'')
      else case drop (unat offset) (data b) of
        [] \<Rightarrow> Inr None
      | kind # p \<Rightarrow>
          if kmax < kind then Inr None
          else (case batchDecodeStr p of
             None \<Rightarrow> Inr None
           | Some (p, ukey) \<Rightarrow>
               if kind = InternalKeyKindSet \<or> kind = InternalKeyKindMerge
                  \<or> kind = InternalKeyKindRangeDelete
               then (case batchDecodeStr p of
                       None \<Rightarrow> Inr None
                     | Some (_, val) \<Rightarrow> Inr (Some (kind, ukey, Some val)))
               else Inr (Some (kind, ukey, None))))"

text \<open>
  \<^verbatim>\<open>batchReader\<close> is the rest of the buffer. \<open>nextStr\<close> and \<open>next\<close> return the reader
  after the call with the result; \<open>None\<close> is \<^verbatim>\<open>ok = false\<close>.
\<close>

definition nextStr :: "bytes \<Rightarrow> bytes \<times> bytes option" where
  "nextStr r =
     (case Uvarint r of (u, numBytes) \<Rightarrow>
        if numBytes \<le> 0 then (r, None)
        else let p = drop (nat numBytes) r in
          if length p < unat u then (r, None)
          else (drop (unat u) p, Some (take (unat u) p)))"

definition "next" :: "InternalKeyKind \<Rightarrow> bytes \<Rightarrow> bytes \<times> entry option" where
  "next kmax r =
     (case r of
        [] \<Rightarrow> (r, None)
      | kind # p \<Rightarrow>
          if kmax < kind then (p, None)
          else (case nextStr p of
             (r1, None) \<Rightarrow> (r1, None)
           | (r1, Some ukey) \<Rightarrow>
               if kind = InternalKeyKindSet \<or> kind = InternalKeyKindRangeDelete
               then (case nextStr r1 of
                       (r2, None) \<Rightarrow> (r2, None)
                     | (r2, Some val) \<Rightarrow> (r2, Some (kind, ukey, Some val)))
               else (r1, Some (kind, ukey, None))))"

definition iter :: "Batch \<Rightarrow> error + bytes" where
  "iter b =
     (if length (data b) < batchHeaderLen then Inl (Panic ''slice bounds out of range'')
      else Inr (drop batchHeaderLen (data b)))"

lemma uvarint_loop_bound:
  "uvarint_loop buf i x s = (v, n) \<Longrightarrow> n \<le> int i + int (length buf)"
proof (induction buf arbitrary: i x s)
  case Nil
  then show ?case by simp
next
  case (Cons b buf)
  show ?case
  proof (cases "i \<noteq> MaxVarintLen64 \<and> \<not> b < 0x80")
    case True
    then have "uvarint_loop buf (i + 1) (x OR push_bit s (ucast (b AND 0x7f))) (s + 7) = (v, n)"
      using Cons.prems by simp
    from Cons.IH [OF this] show ?thesis by simp
  next
    case False
    then show ?thesis using Cons.prems by (auto split: if_splits)
  qed
qed

lemma Uvarint_bound: "Uvarint buf = (v, n) \<Longrightarrow> n \<le> int (length buf)"
  using uvarint_loop_bound [of buf 0 0 0 v n] by (simp add: Uvarint_def)

lemma nextStr_length: "nextStr r = (r', Some s) \<Longrightarrow> length r' < length r"
  by (auto simp: nextStr_def Let_def split: prod.splits if_splits dest!: Uvarint_bound)

lemma nextStr_length_le: "nextStr r = (r', x) \<Longrightarrow> length r' \<le> length r"
  by (auto simp: nextStr_def Let_def split: prod.splits if_splits)

lemma next_length: "next kmax r = (r', Some e) \<Longrightarrow> length r' < length r"
  by (fastforce simp: next_def split: list.splits if_splits prod.splits option.splits
      dest: nextStr_length nextStr_length_le)

text \<open>
  The loop every reader of a whole batch runs (\<^verbatim>\<open>refreshMemTableSize\<close>, \<^verbatim>\<open>Apply\<close>):
  call \<^verbatim>\<open>next\<close> until it reports \<^verbatim>\<open>ok = false\<close>. \<open>entries\<close> is the sequence of
  entries the loop body sees.
\<close>

function entries :: "InternalKeyKind \<Rightarrow> bytes \<Rightarrow> entry list" where
  "entries kmax r =
     (case next kmax r of
        (r', None) \<Rightarrow> []
      | (r', Some e) \<Rightarrow> e # entries kmax r')"
  by pat_completeness auto
termination
proof (relation "measure (\<lambda>(kmax, r). length r)")
  show "wf (measure (\<lambda>(kmax, r). length r))" by simp
next
  fix kmax r x y e
  assume "(x, y) = next kmax r" and "y = Some e"
  then have "next kmax r = (x, Some e)" by simp
  then show "((kmax, x), kmax, r) \<in> measure (\<lambda>(kmax, r). length r)"
    by (simp add: next_length)
qed

declare entries.simps [simp del]

text \<open>
  \<^verbatim>\<open>Batch.Get\<close>. The body of the loop over the index leaves the loop on its first
  iteration, by \<^verbatim>\<open>break\<close> or by \<^verbatim>\<open>return\<close>, so only the first offset from the seek
  position is looked at.
\<close>

definition Get :: "InternalKeyKind \<Rightarrow> Batch \<Rightarrow> bytes \<Rightarrow> error + bytes option" where
  "Get kmax b key =
     (case index b of
        None \<Rightarrow> Inl ErrNotIndexed
      | Some l \<Rightarrow>
          (case skl_SeekGE b l key of
             Inl e \<Rightarrow> Inl e
           | Inr [] \<Rightarrow> Inl ErrNotFound
           | Inr (offset # _) \<Rightarrow>
               (case decode kmax b offset of
                  Inl e \<Rightarrow> Inl e
                | Inr None \<Rightarrow> Inl ErrCorruptedBatch
                | Inr (Some (_, ekey, val)) \<Rightarrow>
                    if 0 < cmp b key ekey then Inl ErrNotFound else Inr val)))"

section \<open>Compaction iterator\<close>

text \<open>
  Modelled from the spec: the \<^verbatim>\<open>db.InternalIterator\<close> that the compaction iterator
  consumes (the merging iterator over the compaction inputs) is not under src. It is a
  sequence of entries in internal-key order with a position: \<open>contents\<close> is the whole
  sequence and \<open>rest\<close> the part from the current entry on. \<^verbatim>\<open>Next\<close> steps to the next
  entry, \<^verbatim>\<open>NextUserKey\<close> to the next entry with a different user key.
\<close>

type_synonym 'k kv = "'k InternalKey \<times> bytes"

record 'k internalIter =
  contents :: "'k kv list"
  rest :: "'k kv list"

definition it_Valid :: "'k internalIter \<Rightarrow> bool" where
  "it_Valid it = (rest it \<noteq> [])"

definition it_Key :: "'k internalIter \<Rightarrow> 'k InternalKey" where
  "it_Key it = fst (hd (rest it))"

definition it_Value :: "'k internalIter \<Rightarrow> bytes" where
  "it_Value it = snd (hd (rest it))"

definition it_First :: "'k internalIter \<Rightarrow> 'k internalIter" where
  "it_First it = it\<lparr>rest := contents it\<rparr>"

definition it_Next :: "'k internalIter \<Rightarrow> 'k internalIter" where
  "it_Next it = it\<lparr>rest := tl (rest it)\<rparr>"

definition it_NextUserKey :: "('k \<Rightarrow> 'k \<Rightarrow> int) \<Rightarrow> 'k internalIter \<Rightarrow> 'k internalIter" where
  "it_NextUserKey c it =
     (case rest it of
        [] \<Rightarrow> it
      | (k, v) # xs \<Rightarrow> it\<lparr>rest := dropWhile (\<lambda>(k', v'). c (UserKey k) (UserKey k') = 0) xs\<rparr>)"

datatype compactionIterPos = compactionIterCur | compactionIterNext

text \<open>
  The compaction iterator. \<open>cmp\<close> and \<open>merge\<close> are the comparer and the merge operator
  (\<^verbatim>\<open>merge(key, value, older, nil)\<close>), \<open>err\<close> is \<open>None\<close> for a nil error.
\<close>

record 'k compactionIter =
  ci_cmp :: "'k \<Rightarrow> 'k \<Rightarrow> int"
  ci_merge :: "'k \<Rightarrow> bytes \<Rightarrow> bytes \<Rightarrow> bytes"
  ci_iter :: "'k internalIter"
  ci_err :: "error option"
  ci_key :: "'k InternalKey"
  ci_keyBuf :: 'k
  ci_value :: bytes
  ci_valueBuf :: bytes
  ci_valid :: bool
  ci_pos :: compactionIterPos

text \<open>
  The loop of \<^verbatim>\<open>mergeNext\<close>: step to the next older entry and fold it into the value,
  until the entries end, the user key changes, or a \<open>DELETE\<close>, a \<open>SET\<close> or an unknown
  kind is met.
\<close>

function mergeNext_loop :: "'k compactionIter \<Rightarrow> 'k compactionIter \<times> bool" where
  "mergeNext_loop i0 =
     (let i = i0\<lparr>ci_iter := it_Next (ci_iter i0)\<rparr> in
      if \<not> it_Valid (ci_iter i) then (i\<lparr>ci_pos := compactionIterNext\<rparr>, True)
      else
        let key = it_Key (ci_iter i) in
        if ci_cmp i (UserKey (ci_key i)) (UserKey key) \<noteq> 0
        then (i\<lparr>ci_pos := compactionIterNext\<rparr>, True)
        else if Kind key = InternalKeyKindDelete then (i, True)
        else if Kind key = InternalKeyKindSet then
          (i\<lparr>ci_value := ci_merge i (UserKey (ci_key i)) (ci_value i) (it_Value (ci_iter i)),
             ci_key := SetKind (ci_key i) InternalKeyKindSet\<rparr>, True)
        else if Kind key = InternalKeyKindMerge then
          mergeNext_loop
            (i\<lparr>ci_value := ci_merge i (UserKey (ci_key i)) (ci_value i) (it_Value (ci_iter i))\<rparr>)
        else (i\<lparr>ci_err := Some (ErrOther ''invalid internal key kind'')\<rparr>, False))"
  by pat_completeness auto
termination
proof (relation "measure (\<lambda>i. length (rest (ci_iter i)))")
  show "wf (measure (\<lambda>i. length (rest (ci_iter i))))" by simp
next
  fix i0 :: "'k compactionIter" and i key
  assume i: "i = i0\<lparr>ci_iter := it_Next (ci_iter i0)\<rparr>" and v: "\<not> \<not> it_Valid (ci_iter i)"
  from i v have "tl (rest (ci_iter i0)) \<noteq> []" by (simp add: it_Valid_def it_Next_def)
  then have "rest (ci_iter i0) \<noteq> []" by auto
  then have "length (tl (rest (ci_iter i0))) < length (rest (ci_iter i0))" by simp
  then show "(i\<lparr>ci_value := ci_merge i (UserKey (ci_key i)) (ci_value i) (it_Value (ci_iter i))\<rparr>, i0)
      \<in> measure (\<lambda>i. length (rest (ci_iter i)))"
    using i by (simp add: it_Next_def)
qed

declare mergeNext_loop.simps [simp del]

definition mergeNext :: "'k compactionIter \<Rightarrow> 'k compactionIter \<times> bool" where
  "mergeNext i0 =
     (let i = i0\<lparr>ci_keyBuf := UserKey (it_Key (ci_iter i0)),
                 ci_valueBuf := it_Value (ci_iter i0)\<rparr>;
          i = i\<lparr>ci_key := (ci_key i)\<lparr>UserKey := ci_keyBuf i\<rparr>, ci_value := ci_valueBuf i\<rparr>;
          i = i\<lparr>ci_valid := True\<rparr>
      in mergeNext_loop i)"

text \<open>
  \<^verbatim>\<open>findNextEntry\<close>. Every branch of the body of its loop returns, so the loop runs its
  body at most once.
\<close>

definition findNextEntry :: "'k compactionIter \<Rightarrow> 'k compactionIter \<times> bool" where
  "findNextEntry i0 =
     (let i = i0\<lparr>ci_valid := False, ci_pos := compactionIterCur\<rparr> in
      if it_Valid (ci_iter i) then
        let i = i\<lparr>ci_key := it_Key (ci_iter i)\<rparr> in
        if Kind (ci_key i) = InternalKeyKindDelete then
          (i\<lparr>ci_value := it_Value (ci_iter i), ci_valid := True\<rparr>, True)
        else if Kind (ci_key i) = InternalKeyKindSet then
          (i\<lparr>ci_value := it_Value (ci_iter i), ci_valid := True\<rparr>, True)
        else if Kind (ci_key i) = InternalKeyKindMerge then mergeNext i
        else (i\<lparr>ci_err := Some (ErrOther ''invalid internal key kind'')\<rparr>, False)
      else (i, False))"

definition ci_First :: "'k compactionIter \<Rightarrow> 'k compactionIter" where
  "ci_First i =
     (if ci_err i \<noteq> None then i
      else fst (findNextEntry (i\<lparr>ci_iter := it_First (ci_iter i)\<rparr>)))"

definition ci_Next :: "'k compactionIter \<Rightarrow> 'k compactionIter \<times> bool" where
  "ci_Next i =
     (if ci_err i \<noteq> None then (i, False)
      else case ci_pos i of
        compactionIterCur \<Rightarrow>
          findNextEntry (i\<lparr>ci_iter := it_NextUserKey (ci_cmp i) (ci_iter i)\<rparr>)
      | compactionIterNext \<Rightarrow> findNextEntry i)"

text \<open>
  The iterator as \<^verbatim>\<open>compactDiskTables\<close> builds it: comparer, merge operator and input
  iterator set, every other field zero.
\<close>

definition newCompactionIter ::
  "(bytes \<Rightarrow> bytes \<Rightarrow> int) \<Rightarrow> (bytes \<Rightarrow> bytes \<Rightarrow> bytes \<Rightarrow> bytes) \<Rightarrow> bytes internalIter
   \<Rightarrow> bytes compactionIter" where
  "newCompactionIter c m it =
     \<lparr>ci_cmp = c, ci_merge = m, ci_iter = it, ci_err = None,
      ci_key = \<lparr>UserKey = [], Trailer = 0\<rparr>, ci_keyBuf = [], ci_value = [], ci_valueBuf = [],
      ci_valid = False, ci_pos = compactionIterCur\<rparr>"

text \<open>
  The value a run of merges accumulates, newest first: each older value is merged into
  the value so far. \<open>same_key_merges\<close> says that every entry of a run is a \<open>MERGE\<close> of
  the user key \<open>u\<close>.
\<close>

definition merge_run :: "'k compactionIter \<Rightarrow> 'k \<Rightarrow> bytes \<Rightarrow> 'k kv list \<Rightarrow> bytes" where
  "merge_run i u v ms = foldl (\<lambda>acc kv. ci_merge i u acc (snd kv)) v ms"

definition same_key_merges :: "'k compactionIter \<Rightarrow> 'k \<Rightarrow> 'k kv list \<Rightarrow> bool" where
  "same_key_merges i u ms =
     list_all (\<lambda>kv. Kind (fst kv) = InternalKeyKindMerge \<and> ci_cmp i u (UserKey (fst kv)) = 0) ms"

text \<open>A merge operator for concrete runs: concatenation, as in the spec's scenario S3.\<close>

definition concatMerge :: "bytes \<Rightarrow> bytes \<Rightarrow> bytes \<Rightarrow> bytes" where
  "concatMerge key val older = val @ older"

definition listIter :: "'k kv list \<Rightarrow> 'k internalIter" where
  "listIter xs = \<lparr>contents = xs, rest = xs\<rparr>"

section \<open>Versions and compactions\<close>

text \<open>
  File metadata, versions and version edits. \<open>files\<close> is the array of the levels' file
  lists, so \<^verbatim>\<open>numLevels\<close> is its length. The float \<^verbatim>\<open>compactionScore\<close> is only compared
  with \<open>1\<close> and is a rational here. A version edit as the compaction code builds it
  has its deleted files (a map to \<open>true\<close>) and its new files; its other fields stay zero.
\<close>

record 'k fileMetadata =
  fileNum :: "64 word"
  size_f :: "64 word"
  smallest :: "'k InternalKey"
  largest :: "'k InternalKey"

record 'k version =
  files :: "'k fileMetadata list list"
  compactionScore :: rat
  compactionLevel :: nat

record 'k versionEdit =
  deletedFiles :: "(nat \<times> 64 word) \<rightharpoonup> bool"
  newFiles :: "(nat \<times> 'k fileMetadata) list"

text \<open>
  The version set, as far as the compaction code reads it: the comparer, the options'
  \<^verbatim>\<open>Level(level).TargetFileSize\<close> (an \<^verbatim>\<open>int64\<close>) by level, the live versions (the
  current one is \<open>currentVersion\<close>), and the log and manifest numbers.
\<close>

record 'k versionSet =
  vs_cmp :: "'k \<Rightarrow> 'k \<Rightarrow> int"
  vs_opts :: "nat \<Rightarrow> 64 word"
  versions :: "'k version list"
  currentVersion :: "'k version"
  logNumber :: "64 word"
  manifestFileNumber :: "64 word"

text \<open>The three input lists \<^verbatim>\<open>inputs[0]\<close>, \<^verbatim>\<open>inputs[1]\<close>, \<^verbatim>\<open>inputs[2]\<close> are three fields.\<close>

record 'k compaction =
  c_version :: "'k version"
  level :: nat
  inputs0 :: "'k fileMetadata list"
  inputs1 :: "'k fileMetadata list"
  inputs2 :: "'k fileMetadata list"

text \<open>
  The two limits: \<^verbatim>\<open>uint64(25 * TargetFileSize)\<close> and \<^verbatim>\<open>uint64(10 * TargetFileSize)\<close>,
  the product taken in 64 bits.
\<close>

definition expandedCompactionByteSizeLimit :: "(nat \<Rightarrow> 64 word) \<Rightarrow> nat \<Rightarrow> 64 word" where
  "expandedCompactionByteSizeLimit opts lvl = 25 * opts lvl"

definition maxGrandparentOverlapBytes :: "(nat \<Rightarrow> 64 word) \<Rightarrow> nat \<Rightarrow> 64 word" where
  "maxGrandparentOverlapBytes opts lvl = 10 * opts lvl"

text \<open>
  Modelled from the spec: \<^verbatim>\<open>totalSize\<close> is not under src; it is the sum of the files'
  sizes, a \<^verbatim>\<open>uint64\<close>.
\<close>

definition totalSize :: "'k fileMetadata list \<Rightarrow> 64 word" where
  "totalSize fs = foldl (\<lambda>s f. s + size_f f) 0 fs"

text \<open>
  \<^verbatim>\<open>version.overlaps\<close> and \<^verbatim>\<open>ikeyRange\<close> are not under src either. The functions below
  take them as the parameters \<open>ov\<close> (the files of a level whose user-key range meets a
  range) and \<open>ikr\<close> (the smallest and largest internal key of two file lists).
\<close>

type_synonym 'k overlapsFn =
  "'k version \<Rightarrow> nat \<Rightarrow> ('k \<Rightarrow> 'k \<Rightarrow> int) \<Rightarrow> 'k \<Rightarrow> 'k \<Rightarrow> 'k fileMetadata list"

type_synonym 'k ikeyRangeFn =
  "('k \<Rightarrow> 'k \<Rightarrow> int) \<Rightarrow> 'k fileMetadata list \<Rightarrow> 'k fileMetadata list
   \<Rightarrow> 'k InternalKey \<times> 'k InternalKey"

definition grow ::
  "'k overlapsFn \<Rightarrow> 'k ikeyRangeFn \<Rightarrow> 'k versionSet \<Rightarrow> 'k compaction
   \<Rightarrow> 'k InternalKey \<Rightarrow> 'k InternalKey \<Rightarrow> 'k compaction \<times> bool" where
  "grow ov ikr vs c sm la =
     (if length (inputs1 c) = 0 then (c, False)
      else
        let grow0 = ov (c_version c) (level c) (vs_cmp vs) (UserKey sm) (UserKey la) in
        if length grow0 \<le> length (inputs0 c) then (c, False)
        else if expandedCompactionByteSizeLimit (vs_opts vs) (level c + 1)
                  \<le> totalSize grow0 + totalSize (inputs1 c)
        then (c, False)
        else
          let (sm1, la1) = ikr (vs_cmp vs) grow0 [];
              grow1 = ov (c_version c) (level c + 1) (vs_cmp vs) (UserKey sm1) (UserKey la1)
          in if length grow1 \<noteq> length (inputs1 c) then (c, False)
             else (c\<lparr>inputs0 := grow0, inputs1 := grow1\<rparr>, True))"

definition setupOtherInputs ::
  "'k overlapsFn \<Rightarrow> 'k ikeyRangeFn \<Rightarrow> 'k versionSet \<Rightarrow> 'k compaction \<Rightarrow> 'k compaction" where
  "setupOtherInputs ov ikr vs c0 =
     (let (smallest0, largest0) = ikr (vs_cmp vs) (inputs0 c0) [];
          c = c0\<lparr>inputs1 := ov (c_version c0) (level c0 + 1) (vs_cmp vs)
                   (UserKey smallest0) (UserKey largest0)\<rparr>;
          (smallest01, largest01) = ikr (vs_cmp vs) (inputs0 c) (inputs1 c);
          (c, grew) = grow ov ikr vs c smallest01 largest01;
          (smallest01, largest01) =
             (if grew then ikr (vs_cmp vs) (inputs0 c) (inputs1 c) else (smallest01, largest01))
      in if level c + 2 < length (files (c_version c))
         then c\<lparr>inputs2 := ov (c_version c) (level c + 2) (vs_cmp vs)
                   (UserKey smallest01) (UserKey largest01)\<rparr>
         else c)"

text \<open>
  \<^verbatim>\<open>pickCompaction\<close>: \<open>None\<close> is the nil compaction. Taking the first file of an empty
  level is an index out of range. The test \<^verbatim>\<open>len(c.inputs) == 0\<close> is on the array of three
  lists and never holds.
\<close>

definition pickCompaction ::
  "'k overlapsFn \<Rightarrow> 'k ikeyRangeFn \<Rightarrow> 'k versionSet \<Rightarrow> error + 'k compaction option" where
  "pickCompaction ov ikr vs =
     (let cur = currentVersion vs in
      if 1 \<le> compactionScore cur then
        if length (files cur) \<le> compactionLevel cur \<or> files cur ! compactionLevel cur = []
        then Inl (Panic ''index out of range'')
        else
          let c = \<lparr>c_version = cur, level = compactionLevel cur,
                   inputs0 = [hd (files cur ! compactionLevel cur)], inputs1 = [], inputs2 = []\<rparr>;
              c = (if level c = 0 then
                     let (smallest, largest) = ikr (vs_cmp vs) (inputs0 c) []
                     in c\<lparr>inputs0 := ov cur 0 (vs_cmp vs) (UserKey smallest) (UserKey largest)\<rparr>
                   else c)
          in Inr (Some (setupOtherInputs ov ikr vs c))
      else Inr None)"

text \<open>
  \<^verbatim>\<open>isBaseLevelForUkey\<close>. \<open>ibl_files\<close> is the loop over the files of one level: it stops
  at the first file whose largest user key is not below \<open>ukey\<close>, and says whether that
  file's range holds \<open>ukey\<close>. \<open>ibl_levels\<close> is the loop over the levels from \<open>level + 2\<close>.
\<close>

fun ibl_files :: "('k \<Rightarrow> 'k \<Rightarrow> int) \<Rightarrow> 'k \<Rightarrow> 'k fileMetadata list \<Rightarrow> bool" where
  "ibl_files userCmp ukey [] = False"
| "ibl_files userCmp ukey (f # fs) =
     (if userCmp ukey (UserKey (largest f)) \<le> 0
      then 0 \<le> userCmp ukey (UserKey (smallest f))
      else ibl_files userCmp ukey fs)"

fun ibl_levels :: "('k \<Rightarrow> 'k \<Rightarrow> int) \<Rightarrow> 'k \<Rightarrow> 'k fileMetadata list list \<Rightarrow> bool" where
  "ibl_levels userCmp ukey [] = True"
| "ibl_levels userCmp ukey (fs # ls) =
     (if ibl_files userCmp ukey fs then False else ibl_levels userCmp ukey ls)"

definition isBaseLevelForUkey :: "'k compaction \<Rightarrow> ('k \<Rightarrow> 'k \<Rightarrow> int) \<Rightarrow> 'k \<Rightarrow> bool" where
  "isBaseLevelForUkey c userCmp ukey =
     ibl_levels userCmp ukey (drop (level c + 2) (files (c_version c)))"

text \<open>
  \<^verbatim>\<open>compact1\<close>, up to the point where it either returns or starts the disk compaction.
  The result says which: no compaction picked; \<open>TrivialMove ve\<close>, the call of
  \<^verbatim>\<open>logAndApply\<close> with the edit \<open>ve\<close> whose result \<^verbatim>\<open>compact1\<close> returns at once; or
  \<open>DiskCompaction c\<close>, the call of \<^verbatim>\<open>compactDiskTables\<close>, which writes a table.
\<close>

datatype 'k compact1_step =
    NoCompaction
  | TrivialMove "'k versionEdit"
  | DiskCompaction "'k compaction"

definition compact1 ::
  "'k overlapsFn \<Rightarrow> 'k ikeyRangeFn \<Rightarrow> 'k versionSet \<Rightarrow> error + 'k compact1_step" where
  "compact1 ov ikr vs =
     (case pickCompaction ov ikr vs of
        Inl e \<Rightarrow> Inl e
      | Inr None \<Rightarrow> Inr NoCompaction
      | Inr (Some c) \<Rightarrow>
          if length (inputs0 c) = 1 \<and> length (inputs1 c) = 0
             \<and> totalSize (inputs2 c) \<le> maxGrandparentOverlapBytes (vs_opts vs) (level c + 1)
          then
            let meta = hd (inputs0 c) in
            Inr (TrivialMove
              \<lparr>deletedFiles = [(level c, fileNum meta) \<mapsto> True],
               newFiles = [(level c + 1, meta)]\<rparr>)
          else Inr (DiskCompaction c))"

text \<open>
  Modelled from the spec: \<^verbatim>\<open>version.overlaps\<close> and \<^verbatim>\<open>ikeyRange\<close>, which are not under
  src, for the concrete runs below. \<open>overlaps\<close> is the files of the level whose
  user-key range meets \<open>[ukey0, ukey1]\<close>; the widening of the range that level 0 needs is
  not modelled, and the runs below use levels above 0 only. \<open>ikeyRange\<close> is the smallest
  and the largest internal key of the files of both lists, internal keys ordered by user
  key ascending and then by trailer descending.
\<close>

definition overlaps :: "'k overlapsFn" where
  "overlaps v lvl ucmp ukey0 ukey1 =
     filter (\<lambda>m. \<not> ucmp (UserKey (largest m)) ukey0 < 0 \<and> \<not> 0 < ucmp (UserKey (smallest m)) ukey1)
       (files v ! lvl)"

definition InternalCompare :: "('k \<Rightarrow> 'k \<Rightarrow> int) \<Rightarrow> 'k InternalKey \<Rightarrow> 'k InternalKey \<Rightarrow> int" where
  "InternalCompare ucmp a b =
     (let x = ucmp (UserKey a) (UserKey b) in
      if x \<noteq> 0 then x
      else if Trailer b < Trailer a then -1
      else if Trailer a < Trailer b then 1
      else 0)"

definition ikeyRange :: "bytes ikeyRangeFn" where
  "ikeyRange ucmp f0 f1 =
     (case f0 @ f1 of
        [] \<Rightarrow> (\<lparr>UserKey = [], Trailer = 0\<rparr>, \<lparr>UserKey = [], Trailer = 0\<rparr>)
      | f # fs \<Rightarrow>
          (foldl (\<lambda>s g. if InternalCompare ucmp (smallest g) s < 0 then smallest g else s)
             (smallest f) fs,
           foldl (\<lambda>l g. if 0 < InternalCompare ucmp (largest g) l then largest g else l)
             (largest f) fs))"

text \<open>The sum of the files' sizes as a number.\<close>

definition total_bytes :: "'k fileMetadata list \<Rightarrow> nat" where
  "total_bytes fs = sum_list (map (\<lambda>f. unat (size_f f)) fs)"

text \<open>
  The two lists \<^verbatim>\<open>grow\<close> computes: the level's files that overlap the joint range, and
  the next level's files that overlap the range of those.
\<close>

definition grow0_of ::
  "'k overlapsFn \<Rightarrow> 'k versionSet \<Rightarrow> 'k compaction \<Rightarrow> 'k InternalKey \<Rightarrow> 'k InternalKey
   \<Rightarrow> 'k fileMetadata list" where
  "grow0_of ov vs c sm la = ov (c_version c) (level c) (vs_cmp vs) (UserKey sm) (UserKey la)"

definition grow1_of ::
  "'k overlapsFn \<Rightarrow> 'k ikeyRangeFn \<Rightarrow> 'k versionSet \<Rightarrow> 'k compaction
   \<Rightarrow> 'k InternalKey \<Rightarrow> 'k InternalKey \<Rightarrow> 'k fileMetadata list" where
  "grow1_of ov ikr vs c sm la =
     (let (sm1, la1) = ikr (vs_cmp vs) (grow0_of ov vs c sm la) []
      in ov (c_version c) (level c + 1) (vs_cmp vs) (UserKey sm1) (UserKey la1))"

text \<open>Files, versions and a version set for concrete runs.\<close>

definition mkFile :: "64 word \<Rightarrow> 64 word \<Rightarrow> bytes \<Rightarrow> bytes \<Rightarrow> bytes fileMetadata" where
  "mkFile n sz lo hi =
     \<lparr>fileNum = n, size_f = sz,
      smallest = MakeInternalKey lo 2 InternalKeyKindSet,
      largest = MakeInternalKey hi 1 InternalKeyKindSet\<rparr>"

definition mkVersionSet :: "bytes version \<Rightarrow> bytes versionSet" where
  "mkVersionSet v =
     \<lparr>vs_cmp = compare3, vs_opts = (\<lambda>l. 2097152), versions = [v], currentVersion = v,
      logNumber = 0, manifestFileNumber = 0\<rparr>"

text \<open>
  Two versions for concrete runs. \<open>V6\<close>: one file \<open>a..c\<close> at level 1, nothing at level 2,
  one file \<open>a..z\<close> at level 3. \<open>V7\<close>: files \<open>a..c\<close> and \<open>c..f\<close> at level 1 (they touch at
  the user key \<open>c\<close>), and the level-2 files given.
\<close>

definition V6 :: "bytes version" where
  "V6 = \<lparr>files = [[], [mkFile 5 100 [0x61] [0x63]], [], [mkFile 9 500 [0x61] [0x7a]], [], [], []],
          compactionScore = 2, compactionLevel = 1\<rparr>"

definition V7 :: "bytes fileMetadata list \<Rightarrow> bytes version" where
  "V7 l2 = \<lparr>files = [[], [mkFile 5 100 [0x61] [0x63], mkFile 6 100 [0x63] [0x66]], l2, [], [], [], []],
          compactionScore = 2, compactionLevel = 1\<rparr>"

definition C7 :: "bytes fileMetadata list \<Rightarrow> bytes fileMetadata list \<Rightarrow> bytes compaction" where
  "C7 l2 in1 = \<lparr>c_version = V7 l2, level = 1, inputs0 = [mkFile 5 100 [0x61] [0x63]],
                inputs1 = in1, inputs2 = []\<rparr>"

section \<open>Obsolete files\<close>

text \<open>
  Modelled from the spec: the file types and \<^verbatim>\<open>parseDBFilename\<close> are not under src. The
  directory holds \<^verbatim>\<open>CURRENT\<close>, \<^verbatim>\<open>LOCK\<close>, \<^verbatim>\<open>MANIFEST-<n>\<close>, \<^verbatim>\<open><n>.log\<close> and
  \<^verbatim>\<open><n>.sst\<close>, with \<open>n\<close> a decimal file number. \<^verbatim>\<open>deleteObsoleteFiles\<close> below takes the
  parser as a parameter; \<open>parseDBFilename\<close> is used in concrete runs.
\<close>

datatype fileType = fileTypeLog | fileTypeLock | fileTypeTable | fileTypeManifest | fileTypeCurrent

fun parse_digits :: "string \<Rightarrow> nat \<Rightarrow> nat option" where
  "parse_digits [] acc = Some acc"
| "parse_digits (c # cs) acc =
     (if (48::nat) \<le> of_char c \<and> of_char c \<le> (57::nat)
      then parse_digits cs (10 * acc + (of_char c - 48))
      else None)"

definition parse_fileNum :: "string \<Rightarrow> 64 word option" where
  "parse_fileNum s =
     (if s = [] then None
      else case parse_digits s 0 of
        None \<Rightarrow> None
      | Some n \<Rightarrow> if n < 2 ^ 64 then Some (of_nat n) else None)"

definition parseDBFilename :: "string \<Rightarrow> (fileType \<times> 64 word) option" where
  "parseDBFilename s =
     (if s = ''CURRENT'' then Some (fileTypeCurrent, 0)
      else if s = ''LOCK'' then Some (fileTypeLock, 0)
      else if take 9 s = ''MANIFEST-''
        then map_option (Pair fileTypeManifest) (parse_fileNum (drop 9 s))
      else if 4 \<le> length s \<and> drop (length s - 4) s = ''.log''
        then map_option (Pair fileTypeLog) (parse_fileNum (take (length s - 4) s))
      else if 4 \<le> length s \<and> drop (length s - 4) s = ''.sst''
        then map_option (Pair fileTypeTable) (parse_fileNum (take (length s - 4) s))
      else None)"







section \<open>Replaying the write-ahead log\<close>

text \<open>
  Modelled from the spec: the memtable (\<^verbatim>\<open>newMemTable\<close>, \<^verbatim>\<open>prepare\<close>, \<^verbatim>\<open>apply\<close>,
  \<^verbatim>\<open>unref\<close>, \<^verbatim>\<open>Empty\<close>) is not under src. It is an arena of a fixed capacity with a
  reservation counter, a reference count and the entries inserted. \<open>prepare\<close> reserves
  the batch's \<^verbatim>\<open>memTableSize\<close> or returns \<^verbatim>\<open>ErrArenaFull\<close>; \<open>apply\<close> inserts the
  batch's entries at the sequence numbers from \<open>seqNum\<close> on; \<open>unref\<close> says whether the
  last reference is gone.
\<close>

record memTable =
  mt_capacity :: "32 word"
  mt_reserved :: "32 word"
  mt_refs :: int
  mt_entries :: "(bytes InternalKey \<times> bytes option) list"

definition newMemTable :: "32 word \<Rightarrow> memTable" where
  "newMemTable cap = \<lparr>mt_capacity = cap, mt_reserved = 0, mt_refs = 1, mt_entries = []\<rparr>"

definition mt_prepare :: "memTable \<Rightarrow> Batch \<Rightarrow> error + memTable" where
  "mt_prepare m b =
     (if mt_capacity m - mt_reserved m < memTableSize b then Inl ErrArenaFull
      else Inr (m\<lparr>mt_reserved := mt_reserved m + memTableSize b, mt_refs := mt_refs m + 1\<rparr>))"

fun number_entries :: "64 word \<Rightarrow> entry list \<Rightarrow> (bytes InternalKey \<times> bytes option) list" where
  "number_entries s [] = []"
| "number_entries s ((kind, ukey, val) # es) =
     (MakeInternalKey ukey s kind, val) # number_entries (s + 1) es"

definition mt_apply :: "InternalKeyKind \<Rightarrow> memTable \<Rightarrow> Batch \<Rightarrow> 64 word \<Rightarrow> error + memTable" where
  "mt_apply kmax m b s =
     (case iter b of
        Inl e \<Rightarrow> Inl e
      | Inr r \<Rightarrow> Inr (m\<lparr>mt_entries := mt_entries m @ number_entries s (entries kmax r)\<rparr>))"

definition mt_unref :: "memTable \<Rightarrow> memTable \<times> bool" where
  "mt_unref m = (m\<lparr>mt_refs := mt_refs m - 1\<rparr>, mt_refs m - 1 = 0)"

definition mt_Empty :: "memTable \<Rightarrow> bool" where
  "mt_Empty m = (mt_entries m = [])"

text \<open>
  \<^verbatim>\<open>Batch.refreshMemTableSize\<close>: the sum of \<^verbatim>\<open>memTableEntrySize\<close> over the entries that
  \<^verbatim>\<open>next\<close> yields; a nil value has length 0.
\<close>

definition refreshMemTableSize :: "entrySize \<Rightarrow> InternalKeyKind \<Rightarrow> Batch \<Rightarrow> error + Batch" where
  "refreshMemTableSize mes kmax b =
     (case iter b of
        Inl e \<Rightarrow> Inl e
      | Inr r \<Rightarrow>
          Inr (b\<lparr>memTableSize :=
                 foldl (\<lambda>s (kind, ukey, val).
                          s + mes (length ukey) (case val of None \<Rightarrow> 0 | Some v \<Rightarrow> length v))
                   0 (entries kmax r)\<rparr>))"

text \<open>
  \<^verbatim>\<open>DB.replayWAL\<close>. The log is the list of its records, as \<^verbatim>\<open>record.Reader\<close> yields
  them (the framing is out of scope; a read error is not modelled). \<open>replay_loop\<close> is the
  loop over the records; its state is the memtable (\<open>None\<close> for nil) and \<^verbatim>\<open>maxSeqNum\<close>.
  The inner loop around \<^verbatim>\<open>prepare\<close> leaves on its first pass in every case: by the panic
  on \<^verbatim>\<open>ErrArenaFull\<close>, by the return on another error, or by \<^verbatim>\<open>break\<close>.
  \<^verbatim>\<open>maybeScheduleFlush\<close> only schedules work and is left out.
\<close>

fun replay_loop ::
  "entrySize \<Rightarrow> InternalKeyKind \<Rightarrow> 32 word \<Rightarrow> bytes list \<Rightarrow> memTable option \<times> 64 word
   \<Rightarrow> error + (memTable option \<times> 64 word)" where
  "replay_loop mes kmax cap [] st = Inr st"
| "replay_loop mes kmax cap (buf # rs) (mem, maxSeqNum) =
     (if length buf < batchHeaderLen then Inl ErrCorruptLog
      else
        case refreshMemTableSize mes kmax (newBatch\<lparr>data := buf\<rparr>) of
          Inl e \<Rightarrow> Inl e
        | Inr b \<Rightarrow>
            let s = seqNum b;
                maxSeqNum = s + ucast (count b);
                mem = (case mem of None \<Rightarrow> newMemTable cap | Some m \<Rightarrow> m)
            in (case mt_prepare mem b of
                  Inl ErrArenaFull \<Rightarrow> Inl (Panic ''arenaskl: arena is full'')
                | Inl e \<Rightarrow> Inl e
                | Inr mem \<Rightarrow>
                    (case mt_apply kmax mem b s of
                       Inl e \<Rightarrow> Inl e
                     | Inr mem \<Rightarrow>
                         replay_loop mes kmax cap rs (Some (fst (mt_unref mem)), maxSeqNum))))"

text \<open>
  After the loop a memtable that is not empty is written as a level-0 table
  (\<^verbatim>\<open>writeLevel0Table\<close> is not under src; the result holds the entries handed to it).
\<close>

definition replayWAL ::
  "entrySize \<Rightarrow> InternalKeyKind \<Rightarrow> 32 word \<Rightarrow> bytes list
   \<Rightarrow> error + (64 word \<times> (bytes InternalKey \<times> bytes option) list option)" where
  "replayWAL mes kmax cap records =
     (case replay_loop mes kmax cap records (None, 0) of
        Inl e \<Rightarrow> Inl e
      | Inr (mem, maxSeqNum) \<Rightarrow>
          (case mem of
             None \<Rightarrow> Inr (maxSeqNum, None)
           | Some m \<Rightarrow>
               if mt_Empty m then Inr (maxSeqNum, None)
               else Inr (maxSeqNum, Some (mt_entries m))))"

section \<open>Raw block iterator\<close>

text \<open>
  A block is a sequence of entries \<open>(shared, unshared, value length, key suffix, value)\<close>
  with the three numbers as varints, followed by the restart offsets and their number,
  each a little-endian \<^verbatim>\<open>uint32\<close>. The iterator reads the block through raw pointers;
  a read past the end of the block is outside this model and yields \<open>0\<close> here.

  Modelled from the spec: the helpers \<^verbatim>\<open>decodeVarint\<close> and \<^verbatim>\<open>getBytes\<close> are not under
  src. \<open>decodeVarint d p\<close> decodes the varint of at most five bytes at position \<open>p\<close> and
  returns its value and the position after it.
\<close>

definition byte_at :: "bytes \<Rightarrow> nat \<Rightarrow> byte" where
  "byte_at d p = (if p < length d then d ! p else 0)"

fun decodeVarint_n :: "nat \<Rightarrow> bytes \<Rightarrow> nat \<Rightarrow> 32 word \<times> nat" where
  "decodeVarint_n 0 d p = (ucast (byte_at d p), p + 1)"
| "decodeVarint_n (Suc n) d p =
     (let a = byte_at d p in
      if a < 128 then (ucast a, p + 1)
      else case decodeVarint_n n d (p + 1) of
             (v, q) \<Rightarrow> (push_bit 7 v OR ucast (a AND 0x7f), q))"

definition decodeVarint :: "bytes \<Rightarrow> nat \<Rightarrow> 32 word \<times> nat" where
  "decodeVarint d p = decodeVarint_n 4 d p"

definition getBytes :: "bytes \<Rightarrow> nat \<Rightarrow> nat \<Rightarrow> bytes" where
  "getBytes d p n = map (byte_at d) [p ..< p + n]"


text \<open>
  The iterator's fields that seeking and stepping forward use (the cache of \<^verbatim>\<open>Prev\<close> and
  \<^verbatim>\<open>Last\<close> is left out). Offsets are Go \<^verbatim>\<open>int\<close>s.
\<close>

record rawBlockIter =
  rb_cmp :: "bytes \<Rightarrow> bytes \<Rightarrow> int"
  rb_offset :: int
  rb_nextOffset :: int
  rb_restarts :: int
  rb_numRestarts :: int
  rb_data :: bytes
  rb_key :: bytes
  rb_val :: bytes
  rb_ikey :: "bytes InternalKey"


definition readEntry :: "rawBlockIter \<Rightarrow> rawBlockIter" where
  "readEntry i =
     (case decodeVarint (rb_data i) (nat (rb_offset i)) of (shared, p1) \<Rightarrow>
      case decodeVarint (rb_data i) p1 of (unshared, p2) \<Rightarrow>
      case decodeVarint (rb_data i) p2 of (vlen, p3) \<Rightarrow>
        i\<lparr>rb_key := take (unat shared) (rb_key i) @ getBytes (rb_data i) p3 (unat unshared),
          rb_val := getBytes (rb_data i) (p3 + unat unshared) (unat vlen),
          rb_nextOffset := int p3 + int (unat unshared) + int (unat vlen)\<rparr>)"

definition loadEntry :: "rawBlockIter \<Rightarrow> rawBlockIter" where
  "loadEntry i = (let i = readEntry i in i\<lparr>rb_ikey := (rb_ikey i)\<lparr>UserKey := rb_key i\<rparr>\<rparr>)"



definition rb_First :: "rawBlockIter \<Rightarrow> rawBlockIter" where
  "rb_First i = loadEntry (i\<lparr>rb_offset := 0\<rparr>)"














text \<open>
  Two stand-ins for declarations that are not under src, used only where a concrete run
  is evaluated: \<^verbatim>\<open>memTableEntrySize\<close> as the sum of the two lengths, and a value for
  \<^verbatim>\<open>InternalKeyKindMax\<close> above every kind the spec lists. The general theorems take
  both as parameters.
\<close>

definition plainEntrySize :: entrySize where
  "plainEntrySize k v = of_nat k + of_nat v"

definition InternalKeyKindMax :: InternalKeyKind where
  "InternalKeyKindMax = 17"

text \<open>
  The four mutators differ only in the kind byte and in whether a value follows the key.
  \<open>append_entry\<close> is their common shape; it is used in proofs only.
\<close>

definition append_entry ::
  "entrySize \<Rightarrow> Batch \<Rightarrow> InternalKeyKind \<Rightarrow> bytes \<Rightarrow> bytes option \<Rightarrow> Batch \<times> error option" where
  "append_entry mes b0 kind key val =
     (let b = (if length (data b0) = 0 then init b0 else b0) in
      case increment b of
        Inl e \<Rightarrow> (b, Some e)
      | Inr (b, ok) \<Rightarrow>
          if \<not> ok then (b, Some ErrInvalidBatch)
          else
            let offset = (of_nat (length (data b)) :: 32 word);
                b = b\<lparr>data := data b @ [kind]\<rparr>;
                b = appendStr b key;
                b = (case val of None \<Rightarrow> b | Some v \<Rightarrow> appendStr b v)
            in (case index_Add b offset of
                 Inl e \<Rightarrow> (b, Some e)
               | Inr b \<Rightarrow>
                   (b\<lparr>memTableSize := memTableSize b
                        + mes (length key) (case val of None \<Rightarrow> 0 | Some v \<Rightarrow> length v)\<rparr>, None)))"

text \<open>The count field read as a number.\<close>

definition count_of :: "bytes \<Rightarrow> nat" where
  "count_of d = le_uint (take 4 (drop 8 d))"

text \<open>
  What one mutator call does to the count, for a batch \<open>b\<close> and the call's result \<open>r\<close>:
  a batch whose count is the invalid marker is left as it is and the call returns
  \<^verbatim>\<open>ErrInvalidBatch\<close>; otherwise the call does not return \<^verbatim>\<open>ErrInvalidBatch\<close>, the
  count grows by one, and a batch without index returns no error at all.
\<close>

definition count_step :: "Batch \<Rightarrow> Batch \<times> error option \<Rightarrow> bool" where
  "count_step b r =
     (if count b = invalidBatchCount then r = (b, Some ErrInvalidBatch)
      else snd r \<noteq> Some ErrInvalidBatch \<and> unat (count (fst r)) = unat (count b) + 1
        \<and> (index b = None \<longrightarrow> snd r = None))"

section \<open>Properties of the batch mutators\<close>

lemma byte_wrap: "(x :: byte) + 1 = 0 \<Longrightarrow> x = 0xff"
proof -
  assume "x + 1 = 0"
  then have "x = 0 - 1" by (simp add: eq_neg_iff_add_eq_0)
  then show ?thesis by simp
qed

lemma le_uint_bound: "le_uint p < 256 ^ length p"
proof (induction p)
  case Nil
  then show ?case by simp
next
  case (Cons x p)
  have "unat x < 256" using unsigned_less [of x, where ?'a = nat] by simp
  with Cons show ?case by simp
qed

lemma increment_loop_True:
  "increment_loop p = (p', True) \<Longrightarrow> le_uint p' = le_uint p + 1 \<and> length p' = length p"
proof (induction p arbitrary: p')
  case Nil
  then show ?case by simp
next
  case (Cons x p)
  show ?case
  proof (cases "x + 1 = 0")
    case True
    then obtain q where q: "increment_loop p = (q, True)" and p': "p' = 0 # q"
      using Cons.prems by (auto split: prod.splits)
    have "x = 0xff" using True by (rule byte_wrap)
    then show ?thesis using Cons.IH [OF q] p' by simp
  next
    case False
    then have "p' = (x + 1) # p" using Cons.prems by simp
    then show ?thesis using False unatSuc [of x] by (simp add: add.commute)
  qed
qed

lemma increment_loop_False:
  "increment_loop p = (p', False) \<Longrightarrow> p = replicate (length p) 0xff"
proof (induction p arbitrary: p')
  case Nil
  then show ?case by simp
next
  case (Cons x p)
  show ?case
  proof (cases "x + 1 = 0")
    case True
    then obtain q where q: "increment_loop p = (q, False)"
      using Cons.prems by (auto split: prod.splits)
    have "x = 0xff" using True by (rule byte_wrap)
    then show ?thesis using Cons.IH [OF q] by simp
  next
    case False
    then show ?thesis using Cons.prems by simp
  qed
qed

lemma le_uint_replicate_ff: "le_uint (replicate n 0xff) + 1 = 256 ^ n"
  by (induction n) simp_all



lemma Set_append_entry: "Set mes b k v = append_entry mes b InternalKeyKindSet k (Some v)"
  by (simp add: Set_def append_entry_def Let_def cong: sum.case_cong prod.case_cong if_cong)

lemma Merge_append_entry: "Merge mes b k v = append_entry mes b InternalKeyKindMerge k (Some v)"
  by (simp add: Merge_def append_entry_def Let_def cong: sum.case_cong prod.case_cong if_cong)

lemma Delete_append_entry: "Delete mes b k = append_entry mes b InternalKeyKindDelete k None"
  by (simp add: Delete_def append_entry_def Let_def cong: sum.case_cong prod.case_cong if_cong)

lemma DeleteRange_append_entry:
  "DeleteRange mes b s e = append_entry mes b InternalKeyKindRangeDelete s (Some e)"
  by (simp add: DeleteRange_def append_entry_def Let_def cong: sum.case_cong prod.case_cong if_cong)


lemma count_of_lt: "count_of d < 2 ^ 32"
proof -
  have "le_uint (take 4 (drop 8 d)) < 256 ^ length (take 4 (drop 8 d))"
    by (rule le_uint_bound)
  also have "\<dots> \<le> (256::nat) ^ 4"
    by (rule power_increasing) simp_all
  finally show ?thesis by (simp add: count_of_def)
qed

lemma unat_count: "unat (count b) = count_of (data b)"
  using count_of_lt [of "data b"] by (simp add: count_def countData_def count_of_def unat_of_nat)

lemma count_of_append: "12 \<le> length d \<Longrightarrow> count_of (d @ xs) = count_of d"
  by (simp add: count_of_def)

lemma count_invalid_iff: "count b = invalidBatchCount \<longleftrightarrow> count_of (data b) = 2 ^ 32 - 1"
proof -
  have "count b = invalidBatchCount \<longleftrightarrow> unat (count b) = unat invalidBatchCount"
    by (simp add: word_unat_eq_iff)
  then show ?thesis by (simp add: unat_count invalidBatchCount_def)
qed

lemma increment_invalid:
  assumes len: "batchHeaderLen \<le> length (data b)" and inv: "count b = invalidBatchCount"
  shows "increment b = Inr (b, False)"
proof -
  obtain p ok where r: "increment_loop (countData b) = (p, ok)" by (cases "increment_loop (countData b)")
  have l4: "length (countData b) = 4" using len by (simp add: countData_def batchHeaderLen_def)
  have "\<not> ok"
  proof
    assume ok
    with r have "increment_loop (countData b) = (p, True)" by simp
    then have "le_uint p = le_uint (countData b) + 1 \<and> length p = length (countData b)"
      by (rule increment_loop_True)
    moreover have "le_uint p < 256 ^ length p" by (rule le_uint_bound)
    ultimately show False using inv l4
      by (simp add: count_invalid_iff count_of_def countData_def)
  qed
  with r have "increment_loop (countData b) = (p, False)" by simp
  then have "countData b = replicate (length (countData b)) 0xff"
    by (rule increment_loop_False)
  with l4 have cd: "countData b = [0xff, 0xff, 0xff, 0xff]"
    by (simp add: numeral_eq_Suc)
  have "take 8 (data b) @ take 4 (drop 8 (data b)) @ drop 12 (data b) = data b"
  proof -
    have "drop 12 (data b) = drop 4 (drop 8 (data b))" by simp
    then show ?thesis by (simp only: append_take_drop_id)
  qed
  then have "putCountData b [0xff, 0xff, 0xff, 0xff] = b"
    using cd by (simp add: putCountData_def countData_def)
  with r \<open>\<not> ok\<close> len show ?thesis by (simp add: increment_def)
qed


lemma le_uint_replicate_0: "le_uint (replicate n 0) = 0"
  by (induction n) simp_all

lemma increment_valid:
  assumes len: "batchHeaderLen \<le> length (data b)" and ninv: "count b \<noteq> invalidBatchCount"
  shows "\<exists>p. increment b = Inr (putCountData b p, True) \<and> length p = 4
    \<and> le_uint p = count_of (data b) + 1"
proof -
  obtain p ok where r: "increment_loop (countData b) = (p, ok)" by (cases "increment_loop (countData b)")
  have l4: "length (countData b) = 4" using len by (simp add: countData_def batchHeaderLen_def)
  have ok
  proof (rule ccontr)
    assume "\<not> ok"
    with r have "increment_loop (countData b) = (p, False)" by simp
    then have "countData b = replicate (length (countData b)) 0xff"
      by (rule increment_loop_False)
    then have "le_uint (countData b) + 1 = 256 ^ 4"
      using le_uint_replicate_ff [of 4] l4 by simp
    then show False using ninv by (simp add: count_invalid_iff count_of_def countData_def)
  qed
  with r have "increment_loop (countData b) = (p, True)" by simp
  then have "le_uint p = le_uint (countData b) + 1 \<and> length p = length (countData b)"
    by (rule increment_loop_True)
  with r \<open>ok\<close> len l4 show ?thesis
    by (intro exI [of _ p]) (simp add: increment_def count_of_def countData_def)
qed

lemma count_of_putCountData:
  "batchHeaderLen \<le> length (data b) \<Longrightarrow> length p = 4 \<Longrightarrow>
   count_of (data (putCountData b p) @ xs) = le_uint p"
  by (simp add: putCountData_def count_of_def batchHeaderLen_def)

lemma index_Add_data: "index_Add b offset = Inr b' \<Longrightarrow> data b' = data b"
  by (auto simp: index_Add_def split: option.splits sum.splits error.splits)

lemma index_Add_error: "index_Add b offset = Inl e \<Longrightarrow> \<exists>m. e = Panic m"
  by (auto simp: index_Add_def split: option.splits sum.splits error.splits)

lemma index_Add_None: "index b = None \<Longrightarrow> index_Add b offset = Inr b"
  by (simp add: index_Add_def)


lemma append_entry_count_step:
  assumes wf: "length (data b0) = 0 \<or> batchHeaderLen \<le> length (data b0)"
  shows "count_step b0 (append_entry mes b0 kind key val)"
proof -
  define b where "b = (if length (data b0) = 0 then init b0 else b0)"
  have len: "batchHeaderLen \<le> length (data b)"
    using wf by (auto simp: b_def init_def)
  have cnt: "count_of (data b) = count_of (data b0)"
    by (simp add: b_def init_def count_of_def batchHeaderLen_def le_uint_replicate_0)
  have idx: "index b = index b0" by (simp add: b_def init_def)
  show ?thesis
  proof (cases "count b0 = invalidBatchCount")
    case True
    then have "data b0 \<noteq> []" by (auto simp: count_invalid_iff count_of_def)
    then have bb: "b = b0" by (simp add: b_def)
    with True len have "increment b0 = Inr (b0, False)" by (simp add: increment_invalid)
    then have "append_entry mes b0 kind key val = (b0, Some ErrInvalidBatch)"
      using bb by (simp add: append_entry_def b_def)
    with True show ?thesis by (simp add: count_step_def)
  next
    case False
    then have "count b \<noteq> invalidBatchCount" by (simp add: count_invalid_iff cnt)
    from increment_valid [OF len this] obtain p where
      inc: "increment b = Inr (putCountData b p, True)" and lp: "length p = 4"
      and le: "le_uint p = count_of (data b) + 1" by blast
    define off :: "32 word" where "off = of_nat (length (data (putCountData b p)))"
    define b3 where "b3 = (case val of None \<Rightarrow> appendStr ((putCountData b p)\<lparr>data := data (putCountData b p) @ [kind]\<rparr>) key
       | Some v \<Rightarrow> appendStr (appendStr ((putCountData b p)\<lparr>data := data (putCountData b p) @ [kind]\<rparr>) key) v)"
    have d3: "\<exists>xs. data b3 = data (putCountData b p) @ xs"
      by (cases val) (simp_all add: b3_def appendStr_def)
    have i3: "index b3 = index b0"
      by (cases val) (simp_all add: b3_def appendStr_def putCountData_def idx)
    have c3: "count_of (data b3) = count_of (data b0) + 1"
      using d3 count_of_putCountData [OF len lp] le cnt by auto
    have res: "append_entry mes b0 kind key val =
       (case index_Add b3 off of Inl e \<Rightarrow> (b3, Some e)
        | Inr b' \<Rightarrow> (b'\<lparr>memTableSize := memTableSize b'
              + mes (length key) (case val of None \<Rightarrow> 0 | Some v \<Rightarrow> length v)\<rparr>, None))"
      unfolding append_entry_def Let_def b_def [symmetric] inc b3_def off_def
      by simp
    have "snd (append_entry mes b0 kind key val) \<noteq> Some ErrInvalidBatch
      \<and> count_of (data (fst (append_entry mes b0 kind key val))) = count_of (data b0) + 1
      \<and> (index b0 = None \<longrightarrow> snd (append_entry mes b0 kind key val) = None)"
    proof (cases "index_Add b3 off")
      case (Inl e)
      then obtain m where "e = Panic m" using index_Add_error by blast
      moreover have "index b0 \<noteq> None" using Inl i3 index_Add_None [of b3 off] by auto
      ultimately show ?thesis using Inl res c3 by simp
    next
      case (Inr b')
      then have "data b' = data b3" by (rule index_Add_data)
      then show ?thesis using Inr res c3 by simp
    qed
    with False show ?thesis by (simp add: count_step_def unat_count)
  qed
qed

lemma le_put_4: "le_put 4 v =
  [of_nat (v mod 256), of_nat (v div 256 mod 256), of_nat (v div 256 div 256 mod 256),
   of_nat (v div 256 div 256 div 256 mod 256)]"
proof -
  have "(4::nat) = Suc (Suc (Suc (Suc 0)))" by simp
  then show ?thesis by (simp only: le_put.simps)
qed

lemma replicate_12: "replicate 12 x = [x, x, x, x, x, x, x, x, x, x, x, x]"
proof -
  have "(12::nat) = Suc (Suc (Suc (Suc (Suc (Suc (Suc (Suc (Suc (Suc (Suc (Suc 0)))))))))))" by simp
  then show ?thesis by (simp only: replicate.simps)
qed

lemma init_data: "data (init b) = [0, 0, 0, 0, 0, 0, 0, 0, 0, 0, 0, 0]"
  by (simp add: init_def batchHeaderLen_def replicate_12)

lemma setCount_init_data:
  "data (setCount (init b) v) = [0, 0, 0, 0, 0, 0, 0, 0] @ le_put 4 (unat v)"
  by (simp add: setCount_def putCountData_def init_data)

lemma setCount_init_index: "index (setCount (init b) v) = index b"
  by (simp add: setCount_def putCountData_def init_def)

lemma almost_full_data:
  "data (setCount (init newBatch) 0xfffffffe) = [0, 0, 0, 0, 0, 0, 0, 0, 0xfe, 0xff, 0xff, 0xff]"
  by (simp add: setCount_init_data le_put_4)

lemma almost_full_count: "count (setCount (init newBatch) 0xfffffffe) = 0xfffffffe"
  by (simp add: count_def countData_def almost_full_data)

lemma full_data:
  "data (setCount (init newBatch) invalidBatchCount) = [0, 0, 0, 0, 0, 0, 0, 0, 0xff, 0xff, 0xff, 0xff]"
  by (simp add: setCount_init_data le_put_4 invalidBatchCount_def)

lemma full_count: "count (setCount (init newBatch) invalidBatchCount) = invalidBatchCount"
  by (simp add: count_def countData_def full_data) (simp add: invalidBatchCount_def)

text \<open>
  Claim C3, as the code has it. Every mutator (\<^verbatim>\<open>Set\<close>, \<^verbatim>\<open>Merge\<close>, \<^verbatim>\<open>Delete\<close>,
  \<^verbatim>\<open>DeleteRange\<close>) on a batch whose buffer is empty or holds a header increments the
  count by the byte-wise increment. It returns \<^verbatim>\<open>ErrInvalidBatch\<close>, leaving the batch as
  it was, exactly when the count already is \<open>2^32 - 1\<close> (the four count bytes are
  \<open>0xff\<close>); for every smaller count, \<open>2^32 - 2\<close> included, it does not return
  \<^verbatim>\<open>ErrInvalidBatch\<close>, the count grows by one, and on a batch without index the call
  returns no error.
\<close>

theorem mutators_count_step:
  assumes "length (data b) = 0 \<or> batchHeaderLen \<le> length (data b)"
  shows "count_step b (Set mes b k v) \<and> count_step b (Merge mes b k v)
    \<and> count_step b (Delete mes b k) \<and> count_step b (DeleteRange mes b s e)"
  using assms
  by (simp add: Set_append_entry Merge_append_entry Delete_append_entry
      DeleteRange_append_entry append_entry_count_step)

text \<open>
  The theorem at two batches: one with count \<open>2^32 - 2\<close>, where \<^verbatim>\<open>Merge\<close> succeeds and
  the count becomes \<open>2^32 - 1\<close>, and one with count \<open>2^32 - 1\<close>, where \<^verbatim>\<open>Delete\<close>
  returns \<^verbatim>\<open>ErrInvalidBatch\<close> and changes nothing.
\<close>

theorem mutators_count_step_witness:
  "batchHeaderLen \<le> length (data (setCount (init newBatch) 0xfffffffe))
   \<and> count (setCount (init newBatch) 0xfffffffe) = 0xfffffffe
   \<and> snd (Merge plainEntrySize (setCount (init newBatch) 0xfffffffe) [0x6b] [0x76]) = None
   \<and> unat (count (fst (Merge plainEntrySize (setCount (init newBatch) 0xfffffffe) [0x6b] [0x76])))
       = 4294967295
   \<and> batchHeaderLen \<le> length (data (setCount (init newBatch) invalidBatchCount))
   \<and> Delete plainEntrySize (setCount (init newBatch) invalidBatchCount) [0x6b]
       = (setCount (init newBatch) invalidBatchCount, Some ErrInvalidBatch)"
proof -
  have l1: "batchHeaderLen \<le> length (data (setCount (init newBatch) 0xfffffffe))"
    by (simp add: almost_full_data batchHeaderLen_def)
  have l2: "batchHeaderLen \<le> length (data (setCount (init newBatch) invalidBatchCount))"
    by (simp add: full_data batchHeaderLen_def)
  have i1: "index (setCount (init newBatch) 0xfffffffe) = None"
    by (simp add: setCount_init_index newBatch_def)
  have s1: "count_step (setCount (init newBatch) 0xfffffffe)
      (Merge plainEntrySize (setCount (init newBatch) 0xfffffffe) [0x6b] [0x76])"
    using mutators_count_step [of "setCount (init newBatch) 0xfffffffe" plainEntrySize] l1 by blast
  have s2: "count_step (setCount (init newBatch) invalidBatchCount)
      (Delete plainEntrySize (setCount (init newBatch) invalidBatchCount) [0x6b])"
    using mutators_count_step [of "setCount (init newBatch) invalidBatchCount" plainEntrySize] l2 by blast
  from s1 have "snd (Merge plainEntrySize (setCount (init newBatch) 0xfffffffe) [0x6b] [0x76]) = None
   \<and> unat (count (fst (Merge plainEntrySize (setCount (init newBatch) 0xfffffffe) [0x6b] [0x76])))
       = 4294967295"
    by (simp add: count_step_def almost_full_count invalidBatchCount_def i1)
  moreover from s2 have "Delete plainEntrySize (setCount (init newBatch) invalidBatchCount) [0x6b]
       = (setCount (init newBatch) invalidBatchCount, Some ErrInvalidBatch)"
    by (simp add: count_step_def full_count)
  ultimately show ?thesis using l1 l2 almost_full_count by simp
qed

text \<open>
  Claim C3 as stated fails: on a batch with count \<open>2^32 - 2\<close> the increment to
  \<open>2^32 - 1\<close> is not reported; \<^verbatim>\<open>Set\<close> returns no error and the count is then the
  invalid marker.
\<close>

theorem increment_overflow_counterexample:
  "count (setCount (init newBatch) 0xfffffffe) = 0xfffffffe
   \<and> snd (Set plainEntrySize (setCount (init newBatch) 0xfffffffe) [0x6b] [0x76]) = None
   \<and> count (fst (Set plainEntrySize (setCount (init newBatch) 0xfffffffe) [0x6b] [0x76]))
       = invalidBatchCount"
proof -
  have l1: "length (data (setCount (init newBatch) 0xfffffffe)) = 0
      \<or> batchHeaderLen \<le> length (data (setCount (init newBatch) 0xfffffffe))"
    by (simp add: almost_full_data batchHeaderLen_def)
  have i1: "index (setCount (init newBatch) 0xfffffffe) = None"
    by (simp add: setCount_init_index newBatch_def)
  have "count_step (setCount (init newBatch) 0xfffffffe)
      (Set plainEntrySize (setCount (init newBatch) 0xfffffffe) [0x6b] [0x76])"
    unfolding Set_append_entry using l1 by (rule append_entry_count_step)
  then have "snd (Set plainEntrySize (setCount (init newBatch) 0xfffffffe) [0x6b] [0x76]) = None
    \<and> unat (count (fst (Set plainEntrySize (setCount (init newBatch) 0xfffffffe) [0x6b] [0x76])))
       = unat invalidBatchCount"
    by (simp add: count_step_def almost_full_count invalidBatchCount_def i1)
  then show ?thesis using almost_full_count by (simp add: word_unat_eq_iff)
qed

section \<open>Reading a batch back\<close>

lemma entries_Some: "next kmax r = (r', Some e) \<Longrightarrow> entries kmax r = e # entries kmax r'"
  by (subst entries.simps) simp

lemma entries_None: "next kmax r = (r', None) \<Longrightarrow> entries kmax r = []"
  by (subst entries.simps) simp

text \<open>
  Claim C1 at a failing input: the batch built by \<^verbatim>\<open>Merge("k", "v")\<close> and then
  \<^verbatim>\<open>Set("a", "b")\<close>. \<^verbatim>\<open>batchReader.next\<close> reads a value only for \<open>SET\<close> and
  \<open>RANGE_DELETE\<close>, so the loop over the representation yields the single entry
  \<open>(MERGE, "k", nil)\<close>: the value of the \<open>MERGE\<close> entry is not returned, its bytes are
  read as the next entry, and the \<open>SET\<close> entry is never reached. \<^verbatim>\<open>Batch.decode\<close>, at the
  offset of the same entry, returns the value \<open>"v"\<close>.
\<close>

theorem batchReader_next_drops_merge_value:
  "data (fst (Set plainEntrySize (fst (Merge plainEntrySize newBatch [0x6b] [0x76])) [0x61] [0x62]))
     = [0, 0, 0, 0, 0, 0, 0, 0, 2, 0, 0, 0, 2, 1, 0x6b, 1, 0x76, 1, 1, 0x61, 1, 0x62]
   \<and> iter (fst (Set plainEntrySize (fst (Merge plainEntrySize newBatch [0x6b] [0x76])) [0x61] [0x62]))
     = Inr [2, 1, 0x6b, 1, 0x76, 1, 1, 0x61, 1, 0x62]
   \<and> entries InternalKeyKindMax [2, 1, 0x6b, 1, 0x76, 1, 1, 0x61, 1, 0x62]
     = [(InternalKeyKindMerge, [0x6b], None)]
   \<and> decode InternalKeyKindMax
       (fst (Set plainEntrySize (fst (Merge plainEntrySize newBatch [0x6b] [0x76])) [0x61] [0x62])) 12
     = Inr (Some (InternalKeyKindMerge, [0x6b], Some [0x76]))"
proof -
  have d: "data (fst (Set plainEntrySize (fst (Merge plainEntrySize newBatch [0x6b] [0x76])) [0x61] [0x62]))
     = [0, 0, 0, 0, 0, 0, 0, 0, 2, 0, 0, 0, 2, 1, 0x6b, 1, 0x76, 1, 1, 0x61, 1, 0x62]"
    by code_simp
  have i: "iter (fst (Set plainEntrySize (fst (Merge plainEntrySize newBatch [0x6b] [0x76])) [0x61] [0x62]))
     = Inr [2, 1, 0x6b, 1, 0x76, 1, 1, 0x61, 1, 0x62]"
    by code_simp
  have n1: "next InternalKeyKindMax [2, 1, 0x6b, 1, 0x76, 1, 1, 0x61, 1, 0x62]
     = ([1, 0x76, 1, 1, 0x61, 1, 0x62], Some (InternalKeyKindMerge, [0x6b], None))"
    by code_simp
  have n2: "next InternalKeyKindMax [1, 0x76, 1, 1, 0x61, 1, 0x62] = ([0x76, 1, 1, 0x61, 1, 0x62], None)"
    by code_simp
  have e: "entries InternalKeyKindMax [2, 1, 0x6b, 1, 0x76, 1, 1, 0x61, 1, 0x62]
     = [(InternalKeyKindMerge, [0x6b], None)]"
    by (simp add: entries_Some [OF n1] entries_None [OF n2])
  have c: "decode InternalKeyKindMax
       (fst (Set plainEntrySize (fst (Merge plainEntrySize newBatch [0x6b] [0x76])) [0x61] [0x62])) 12
     = Inr (Some (InternalKeyKindMerge, [0x6b], Some [0x76]))"
    by code_simp
  from d i e c show ?thesis by simp
qed

section \<open>Properties of the compaction iterator\<close>

lemma kinds_distinct:
  "InternalKeyKindDelete \<noteq> InternalKeyKindSet" "InternalKeyKindDelete \<noteq> InternalKeyKindMerge"
  "InternalKeyKindSet \<noteq> InternalKeyKindMerge" "InternalKeyKindSet \<noteq> InternalKeyKindDelete"
  "InternalKeyKindMerge \<noteq> InternalKeyKindDelete" "InternalKeyKindMerge \<noteq> InternalKeyKindSet"
  by (simp_all add: InternalKeyKindDelete_def InternalKeyKindSet_def InternalKeyKindMerge_def)

lemma Kind_SetKind: "Kind (SetKind k x) = x"
proof -
  have "ucast ((push_bit 8 (drop_bit 8 (Trailer k)) OR (ucast x :: 64 word)) AND 0xff) = x"
  proof (rule bit_word_eqI)
    fix n assume "n < LENGTH(8)"
    then have n: "n < 8" by simp
    have m: "(0xff :: 64 word) = mask 8" by (simp add: mask_eq_exp_minus_1)
    show "bit (ucast ((push_bit 8 (drop_bit 8 (Trailer k)) OR (ucast x :: 64 word)) AND 0xff) :: 8 word) n
        = bit x n"
      using n unfolding m
      by (auto simp: bit_simps)
  qed
  then show ?thesis by (simp add: Kind_def SetKind_def)
qed

lemma UserKey_SetKind: "UserKey (SetKind k x) = UserKey k"
  by (simp add: SetKind_def)

lemma SeqNum_SetKind: "SeqNum (SetKind k x) = SeqNum k"
proof -
  have "drop_bit 8 (push_bit 8 (drop_bit 8 (Trailer k)) OR (ucast x :: 64 word)) = drop_bit 8 (Trailer k)"
  proof (rule bit_word_eqI)
    fix n assume "n < LENGTH(64)"
    then show "bit (drop_bit 8 (push_bit 8 (drop_bit 8 (Trailer k)) OR (ucast x :: 64 word))) n
        = bit (drop_bit 8 (Trailer k)) n"
      by (auto simp: bit_simps dest: bit_imp_le_length)
  qed
  then show ?thesis by (simp add: SeqNum_def SetKind_def)
qed




lemma mergeNext_loop_run:
  assumes "rest (ci_iter i) = x # ms @ (kx, vx) # tl0"
    and "same_key_merges i (UserKey (ci_key i)) ms"
  shows "mergeNext_loop i =
     mergeNext_loop (i\<lparr>ci_iter := (ci_iter i)\<lparr>rest := (if ms = [] then x else last ms) # (kx, vx) # tl0\<rparr>,
        ci_value := merge_run i (UserKey (ci_key i)) (ci_value i) ms\<rparr>)"
  using assms
proof (induction ms arbitrary: i x)
  case Nil
  then have "(ci_iter i)\<lparr>rest := x # (kx, vx) # tl0\<rparr> = ci_iter i" by simp
  then show ?case by (simp add: merge_run_def)
next
  case (Cons m ms)
  define i' where "i' = i\<lparr>ci_iter := it_Next (ci_iter i),
     ci_value := ci_merge i (UserKey (ci_key i)) (ci_value i) (snd m)\<rparr>"
  have r: "rest (ci_iter i') = m # ms @ (kx, vx) # tl0"
    using Cons.prems(1) by (simp add: i'_def it_Next_def)
  have s: "same_key_merges i' (UserKey (ci_key i')) ms"
    using Cons.prems(2) by (simp add: i'_def same_key_merges_def)
  have m: "Kind (fst m) = InternalKeyKindMerge" "ci_cmp i (UserKey (ci_key i)) (UserKey (fst m)) = 0"
    using Cons.prems(2) by (simp_all add: same_key_merges_def)
  have step: "mergeNext_loop i = mergeNext_loop i'"
    using Cons.prems(1) m
    by (subst mergeNext_loop.simps)
       (simp add: Let_def it_Valid_def it_Next_def it_Key_def it_Value_def i'_def kinds_distinct)
  have "mergeNext_loop i' =
     mergeNext_loop (i'\<lparr>ci_iter := (ci_iter i')\<lparr>rest := (if ms = [] then m else last ms) # (kx, vx) # tl0\<rparr>,
        ci_value := merge_run i' (UserKey (ci_key i')) (ci_value i') ms\<rparr>)"
    using r s by (rule Cons.IH)
  also have "\<dots> = mergeNext_loop (i\<lparr>ci_iter := (ci_iter i)\<lparr>rest := (if m # ms = [] then x else last (m # ms)) # (kx, vx) # tl0\<rparr>,
        ci_value := merge_run i (UserKey (ci_key i)) (ci_value i) (m # ms)\<rparr>)"
    by (simp add: i'_def it_Next_def merge_run_def)
  finally show ?case using step by simp
qed


lemma mergeNext_loop_Set:
  assumes "rest (ci_iter j) = y # (kx, vx) # tl0"
    and "ci_cmp j (UserKey (ci_key j)) (UserKey kx) = 0" and "Kind kx = InternalKeyKindSet"
  shows "mergeNext_loop j =
     (j\<lparr>ci_iter := (ci_iter j)\<lparr>rest := (kx, vx) # tl0\<rparr>,
        ci_value := ci_merge j (UserKey (ci_key j)) (ci_value j) vx,
        ci_key := SetKind (ci_key j) InternalKeyKindSet\<rparr>, True)"
  using assms
  by (subst mergeNext_loop.simps)
     (simp add: Let_def it_Valid_def it_Next_def it_Key_def it_Value_def kinds_distinct)

lemma mergeNext_loop_Delete:
  assumes "rest (ci_iter j) = y # (kx, vx) # tl0"
    and "ci_cmp j (UserKey (ci_key j)) (UserKey kx) = 0" and "Kind kx = InternalKeyKindDelete"
  shows "mergeNext_loop j = (j\<lparr>ci_iter := (ci_iter j)\<lparr>rest := (kx, vx) # tl0\<rparr>\<rparr>, True)"
  using assms
  by (subst mergeNext_loop.simps)
     (simp add: Let_def it_Valid_def it_Next_def it_Key_def it_Value_def kinds_distinct)

lemma Kind_MakeInternalKey: "Kind (MakeInternalKey u s x) = x"
proof -
  have "ucast ((push_bit 8 s OR (ucast x :: 64 word)) AND 0xff) = x"
  proof (rule bit_word_eqI)
    fix n assume "n < LENGTH(8)"
    then have n: "n < 8" by simp
    have m: "(0xff :: 64 word) = mask 8" by (simp add: mask_eq_exp_minus_1)
    show "bit (ucast ((push_bit 8 s OR (ucast x :: 64 word)) AND 0xff) :: 8 word) n = bit x n"
      using n unfolding m by (auto simp: bit_simps)
  qed
  then show ?thesis by (simp add: Kind_def MakeInternalKey_def)
qed

lemma UserKey_MakeInternalKey: "UserKey (MakeInternalKey u s x) = u"
  by (simp add: MakeInternalKey_def)

lemma compare3_eq_0: "compare3 a b = 0 \<longleftrightarrow> a = b"
  by (simp add: compare3_def)

text \<open>
  Claim C5. The iterator stands on a \<open>MERGE\<close> entry \<open>k0\<close>, followed by a run \<open>ms\<close> of
  older \<open>MERGE\<close> entries of the same user key and then by an entry \<open>kx\<close> of that user
  key. If \<open>kx\<close> is a \<open>SET\<close>, its value is merged into the accumulated value and the
  emitted key is \<open>k0\<close> with its kind changed to \<open>SET\<close> (same user key and sequence
  number). If \<open>kx\<close> is a \<open>DELETE\<close>, the fold stops and the accumulated value is emitted
  under \<open>k0\<close>, kind \<open>MERGE\<close>. In both cases the input iterator is left on \<open>kx\<close>, and the
  following \<^verbatim>\<open>Next\<close> skips \<open>kx\<close> and every older entry of that user key before it looks
  for the next entry, so none of them is merged or emitted.
\<close>

theorem mergeNext_reaches_set_or_delete:
  assumes run: "rest (ci_iter i) = (k0, v0) # ms @ (kx, vx) # tl0"
    and k0: "Kind k0 = InternalKeyKindMerge"
    and ms: "same_key_merges i (UserKey k0) ms"
    and kx: "ci_cmp i (UserKey k0) (UserKey kx) = 0"
    and noerr: "ci_err i = None"
  shows "(Kind kx = InternalKeyKindSet \<longrightarrow>
            findNextEntry i =
              (i\<lparr>ci_iter := (ci_iter i)\<lparr>rest := (kx, vx) # tl0\<rparr>,
                 ci_key := SetKind k0 InternalKeyKindSet,
                 ci_keyBuf := UserKey k0, ci_valueBuf := v0,
                 ci_value := ci_merge i (UserKey k0) (merge_run i (UserKey k0) v0 ms) vx,
                 ci_valid := True, ci_pos := compactionIterCur\<rparr>, True)
            \<and> Kind (SetKind k0 InternalKeyKindSet) = InternalKeyKindSet
            \<and> UserKey (SetKind k0 InternalKeyKindSet) = UserKey k0
            \<and> SeqNum (SetKind k0 InternalKeyKindSet) = SeqNum k0)
       \<and> (Kind kx = InternalKeyKindDelete \<longrightarrow>
            findNextEntry i =
              (i\<lparr>ci_iter := (ci_iter i)\<lparr>rest := (kx, vx) # tl0\<rparr>,
                 ci_key := k0,
                 ci_keyBuf := UserKey k0, ci_valueBuf := v0,
                 ci_value := merge_run i (UserKey k0) v0 ms,
                 ci_valid := True, ci_pos := compactionIterCur\<rparr>, True))
       \<and> (Kind kx = InternalKeyKindSet \<or> Kind kx = InternalKeyKindDelete \<longrightarrow>
            ci_Next (fst (findNextEntry i)) =
              findNextEntry ((fst (findNextEntry i))
                \<lparr>ci_iter := (ci_iter i)\<lparr>rest :=
                   dropWhile (\<lambda>(k', v'). ci_cmp i (UserKey kx) (UserKey k') = 0) tl0\<rparr>\<rparr>))"
proof -
  define i1 where "i1 = i\<lparr>ci_valid := True, ci_pos := compactionIterCur, ci_key := k0,
     ci_keyBuf := UserKey k0, ci_valueBuf := v0, ci_value := v0\<rparr>"
  have f: "findNextEntry i = mergeNext_loop i1"
    by (cases i) (use run k0 in \<open>simp add: findNextEntry_def mergeNext_def Let_def it_Valid_def
        it_Key_def it_Value_def kinds_distinct i1_def\<close>)
  define j where "j = i1\<lparr>ci_iter := (ci_iter i1)\<lparr>rest := (if ms = [] then (k0, v0) else last ms) # (kx, vx) # tl0\<rparr>,
        ci_value := merge_run i1 (UserKey (ci_key i1)) (ci_value i1) ms\<rparr>"
  have r1: "rest (ci_iter i1) = (k0, v0) # ms @ (kx, vx) # tl0" using run by (simp add: i1_def)
  have s1: "same_key_merges i1 (UserKey (ci_key i1)) ms"
    using ms by (simp add: i1_def same_key_merges_def)
  have l: "mergeNext_loop i1 = mergeNext_loop j"
    unfolding j_def using r1 s1 by (rule mergeNext_loop_run)
  have rj: "rest (ci_iter j) = (if ms = [] then (k0, v0) else last ms) # (kx, vx) # tl0"
    by (simp add: j_def)
  have cj: "ci_cmp j (UserKey (ci_key j)) (UserKey kx) = 0"
    using kx by (simp add: j_def i1_def)
  have S: "findNextEntry i =
              (i\<lparr>ci_iter := (ci_iter i)\<lparr>rest := (kx, vx) # tl0\<rparr>,
                 ci_key := SetKind k0 InternalKeyKindSet,
                 ci_keyBuf := UserKey k0, ci_valueBuf := v0,
                 ci_value := ci_merge i (UserKey k0) (merge_run i (UserKey k0) v0 ms) vx,
                 ci_valid := True, ci_pos := compactionIterCur\<rparr>, True)"
    if "Kind kx = InternalKeyKindSet"
    by (cases i) (use mergeNext_loop_Set [OF rj cj that] f l in
        \<open>simp add: j_def i1_def merge_run_def\<close>)
  have D: "findNextEntry i =
              (i\<lparr>ci_iter := (ci_iter i)\<lparr>rest := (kx, vx) # tl0\<rparr>,
                 ci_key := k0,
                 ci_keyBuf := UserKey k0, ci_valueBuf := v0,
                 ci_value := merge_run i (UserKey k0) v0 ms,
                 ci_valid := True, ci_pos := compactionIterCur\<rparr>, True)"
    if "Kind kx = InternalKeyKindDelete"
    by (cases i) (use mergeNext_loop_Delete [OF rj cj that] f l in
        \<open>simp add: j_def i1_def merge_run_def\<close>)
  have N: "ci_Next (fst (findNextEntry i)) =
              findNextEntry ((fst (findNextEntry i))
                \<lparr>ci_iter := (ci_iter i)\<lparr>rest :=
                   dropWhile (\<lambda>(k', v'). ci_cmp i (UserKey kx) (UserKey k') = 0) tl0\<rparr>\<rparr>)"
    if "Kind kx = InternalKeyKindSet \<or> Kind kx = InternalKeyKindDelete"
    using that
  proof
    assume a: "Kind kx = InternalKeyKindSet"
    show ?thesis
      by (simp add: S [OF a] ci_Next_def noerr it_NextUserKey_def)
  next
    assume a: "Kind kx = InternalKeyKindDelete"
    show ?thesis
      by (simp add: D [OF a] ci_Next_def noerr it_NextUserKey_def)
  qed
  show ?thesis using S D N by (simp add: Kind_SetKind UserKey_SetKind SeqNum_SetKind)
qed

text \<open>
  The theorem on \<open>MERGE c, MERGE b, SET a, SET z\<close> of one key with the concatenating
  merge operator (emitted: \<open>SET\<close> with value \<open>cba\<close>, input left on \<open>SET a\<close>), and on
  \<open>MERGE c, MERGE b, DELETE, SET z\<close> (emitted: \<open>MERGE\<close> with value \<open>cb\<close>; the next call
  finds nothing more).
\<close>

theorem mergeNext_reaches_set_or_delete_witness:
  "Kind (MakeInternalKey [0x6b] 3 InternalKeyKindMerge) = InternalKeyKindMerge
   \<and> ci_value (fst (findNextEntry (newCompactionIter compare3 concatMerge (listIter
        [(MakeInternalKey [0x6b] 3 InternalKeyKindMerge, [0x63]),
         (MakeInternalKey [0x6b] 2 InternalKeyKindMerge, [0x62]),
         (MakeInternalKey [0x6b] 1 InternalKeyKindSet, [0x61]),
         (MakeInternalKey [0x6b] 0 InternalKeyKindSet, [0x7a])])))) = [0x63, 0x62, 0x61]
   \<and> Kind (ci_key (fst (findNextEntry (newCompactionIter compare3 concatMerge (listIter
        [(MakeInternalKey [0x6b] 3 InternalKeyKindMerge, [0x63]),
         (MakeInternalKey [0x6b] 2 InternalKeyKindMerge, [0x62]),
         (MakeInternalKey [0x6b] 1 InternalKeyKindSet, [0x61]),
         (MakeInternalKey [0x6b] 0 InternalKeyKindSet, [0x7a])]))))) = InternalKeyKindSet
   \<and> rest (ci_iter (fst (findNextEntry (newCompactionIter compare3 concatMerge (listIter
        [(MakeInternalKey [0x6b] 3 InternalKeyKindMerge, [0x63]),
         (MakeInternalKey [0x6b] 2 InternalKeyKindMerge, [0x62]),
         (MakeInternalKey [0x6b] 1 InternalKeyKindSet, [0x61]),
         (MakeInternalKey [0x6b] 0 InternalKeyKindSet, [0x7a])])))))
       = [(MakeInternalKey [0x6b] 1 InternalKeyKindSet, [0x61]),
          (MakeInternalKey [0x6b] 0 InternalKeyKindSet, [0x7a])]
   \<and> ci_value (fst (findNextEntry (newCompactionIter compare3 concatMerge (listIter
        [(MakeInternalKey [0x6b] 3 InternalKeyKindMerge, [0x63]),
         (MakeInternalKey [0x6b] 2 InternalKeyKindMerge, [0x62]),
         (MakeInternalKey [0x6b] 1 InternalKeyKindDelete, []),
         (MakeInternalKey [0x6b] 0 InternalKeyKindSet, [0x7a])])))) = [0x63, 0x62]
   \<and> Kind (ci_key (fst (findNextEntry (newCompactionIter compare3 concatMerge (listIter
        [(MakeInternalKey [0x6b] 3 InternalKeyKindMerge, [0x63]),
         (MakeInternalKey [0x6b] 2 InternalKeyKindMerge, [0x62]),
         (MakeInternalKey [0x6b] 1 InternalKeyKindDelete, []),
         (MakeInternalKey [0x6b] 0 InternalKeyKindSet, [0x7a])]))))) = InternalKeyKindMerge
   \<and> ci_valid (fst (ci_Next (fst (findNextEntry (newCompactionIter compare3 concatMerge (listIter
        [(MakeInternalKey [0x6b] 3 InternalKeyKindMerge, [0x63]),
         (MakeInternalKey [0x6b] 2 InternalKeyKindMerge, [0x62]),
         (MakeInternalKey [0x6b] 1 InternalKeyKindDelete, []),
         (MakeInternalKey [0x6b] 0 InternalKeyKindSet, [0x7a])])))))) = False"
proof -
  let ?k0 = "MakeInternalKey [0x6b] 3 InternalKeyKindMerge :: bytes InternalKey"
  let ?m = "(MakeInternalKey [0x6b] 2 InternalKeyKindMerge :: bytes InternalKey, [0x62 :: byte])"
  let ?ks = "MakeInternalKey [0x6b] 1 InternalKeyKindSet :: bytes InternalKey"
  let ?kd = "MakeInternalKey [0x6b] 1 InternalKeyKindDelete :: bytes InternalKey"
  let ?z = "(MakeInternalKey [0x6b] 0 InternalKeyKindSet :: bytes InternalKey, [0x7a :: byte])"
  let ?iS = "newCompactionIter compare3 concatMerge (listIter [(?k0, [0x63]), ?m, (?ks, [0x61]), ?z])"
  let ?iD = "newCompactionIter compare3 concatMerge (listIter [(?k0, [0x63]), ?m, (?kd, []), ?z])"
  have rS: "rest (ci_iter ?iS) = (?k0, [0x63]) # [?m] @ (?ks, [0x61]) # [?z]"
    by (simp add: newCompactionIter_def listIter_def)
  have rD: "rest (ci_iter ?iD) = (?k0, [0x63]) # [?m] @ (?kd, []) # [?z]"
    by (simp add: newCompactionIter_def listIter_def)
  have k0: "Kind ?k0 = InternalKeyKindMerge" by (rule Kind_MakeInternalKey)
  have mS: "same_key_merges ?iS (UserKey ?k0) [?m]"
    by (simp add: same_key_merges_def Kind_MakeInternalKey UserKey_MakeInternalKey
        newCompactionIter_def compare3_eq_0)
  have mD: "same_key_merges ?iD (UserKey ?k0) [?m]"
    by (simp add: same_key_merges_def Kind_MakeInternalKey UserKey_MakeInternalKey
        newCompactionIter_def compare3_eq_0)
  have cS: "ci_cmp ?iS (UserKey ?k0) (UserKey ?ks) = 0"
    by (simp add: UserKey_MakeInternalKey newCompactionIter_def compare3_eq_0)
  have cD: "ci_cmp ?iD (UserKey ?k0) (UserKey ?kd) = 0"
    by (simp add: UserKey_MakeInternalKey newCompactionIter_def compare3_eq_0)
  have eS: "ci_err ?iS = None" and eD: "ci_err ?iD = None"
    by (simp_all add: newCompactionIter_def)
  note S = mergeNext_reaches_set_or_delete [OF rS k0 mS cS eS]
  note D = mergeNext_reaches_set_or_delete [OF rD k0 mD cD eD]
  have fS: "findNextEntry ?iS =
      (?iS\<lparr>ci_iter := (ci_iter ?iS)\<lparr>rest := (?ks, [0x61]) # [?z]\<rparr>,
                 ci_key := SetKind ?k0 InternalKeyKindSet,
                 ci_keyBuf := UserKey ?k0, ci_valueBuf := [0x63],
                 ci_value := ci_merge ?iS (UserKey ?k0) (merge_run ?iS (UserKey ?k0) [0x63] [?m]) [0x61],
                 ci_valid := True, ci_pos := compactionIterCur\<rparr>, True)"
    by (rule S [THEN conjunct1, rule_format, OF Kind_MakeInternalKey, THEN conjunct1])
  have fD: "findNextEntry ?iD =
      (?iD\<lparr>ci_iter := (ci_iter ?iD)\<lparr>rest := (?kd, []) # [?z]\<rparr>,
                 ci_key := ?k0,
                 ci_keyBuf := UserKey ?k0, ci_valueBuf := [0x63],
                 ci_value := merge_run ?iD (UserKey ?k0) [0x63] [?m],
                 ci_valid := True, ci_pos := compactionIterCur\<rparr>, True)"
    by (rule D [THEN conjunct2, THEN conjunct1, rule_format, OF Kind_MakeInternalKey])
  have nD: "ci_Next (fst (findNextEntry ?iD)) =
      findNextEntry ((fst (findNextEntry ?iD))\<lparr>ci_iter := (ci_iter ?iD)\<lparr>rest :=
          dropWhile (\<lambda>(k', v'). ci_cmp ?iD (UserKey ?kd) (UserKey k') = 0) [?z]\<rparr>\<rparr>)"
    by (rule D [THEN conjunct2, THEN conjunct2, rule_format, OF disjI2, OF Kind_MakeInternalKey])
  have vD: "ci_valid (fst (ci_Next (fst (findNextEntry ?iD)))) = False"
    unfolding nD
    by (simp add: findNextEntry_def it_Valid_def newCompactionIter_def UserKey_MakeInternalKey
        compare3_eq_0 Let_def)
  show ?thesis
    using k0 vD
    unfolding fS fD
    by (simp add: merge_run_def newCompactionIter_def concatMerge_def Kind_SetKind
        Kind_MakeInternalKey listIter_def)
qed

section \<open>Properties of picking and growing a compaction\<close>

lemma totalSize_of_nat: "totalSize fs = of_nat (total_bytes fs)"
proof -
  have "foldl (\<lambda>s f. s + size_f f) a fs = a + of_nat (total_bytes fs)" for a :: "64 word"
    by (induction fs arbitrary: a) (simp_all add: total_bytes_def algebra_simps)
  then show ?thesis by (simp add: totalSize_def)
qed

lemma unat_totalSize: "total_bytes fs < 2 ^ 64 \<Longrightarrow> unat (totalSize fs) = total_bytes fs"
  by (simp add: totalSize_of_nat unat_of_nat)

lemma unat_totalSize_add:
  "total_bytes fs + total_bytes gs < 2 ^ 64 \<Longrightarrow>
   unat (totalSize fs + totalSize gs) = total_bytes fs + total_bytes gs"
proof -
  assume a: "total_bytes fs + total_bytes gs < 2 ^ 64"
  have "totalSize fs + totalSize gs = of_nat (total_bytes fs + total_bytes gs)"
    by (simp add: totalSize_of_nat)
  then show ?thesis using a by (simp add: unat_of_nat del: of_nat_add)
qed

lemma unat_limit10:
  "10 * unat (opts l) < 2 ^ 64 \<Longrightarrow> unat (maxGrandparentOverlapBytes opts l) = 10 * unat (opts l)"
  by (simp add: maxGrandparentOverlapBytes_def unat_word_ariths)

lemma unat_limit25:
  "25 * unat (opts l) < 2 ^ 64 \<Longrightarrow> unat (expandedCompactionByteSizeLimit opts l) = 25 * unat (opts l)"
  by (simp add: expandedCompactionByteSizeLimit_def unat_word_ariths)

text \<open>
  Claim C6. For a picked compaction with exactly one input file at its level \<open>L\<close>, no
  overlapping file at \<open>L + 1\<close>, and the sizes of the grandparent inputs summing to at most
  \<open>10 \<times> target_file_size(L + 1)\<close>, \<^verbatim>\<open>compact1\<close> is a trivial move: it returns the result of
  applying the version edit that deletes the file from level \<open>L\<close> and adds the same
  metadata at level \<open>L + 1\<close>, and does not start the disk compaction. The limit is computed
  in 64 bits; the product is assumed not to wrap.
\<close>

theorem compact1_trivial_move:
  assumes pick: "pickCompaction ov ikr vs = Inr (Some c)"
    and one: "length (inputs0 c) = 1" and none: "length (inputs1 c) = 0"
    and small: "total_bytes (inputs2 c) \<le> 10 * unat (vs_opts vs (level c + 1))"
    and nowrap: "10 * unat (vs_opts vs (level c + 1)) < 2 ^ 64"
  shows "compact1 ov ikr vs =
     Inr (TrivialMove
       \<lparr>deletedFiles = [(level c, fileNum (hd (inputs0 c))) \<mapsto> True],
        newFiles = [(level c + 1, hd (inputs0 c))]\<rparr>)"
proof -
  have "total_bytes (inputs2 c) < 2 ^ 64" using small nowrap by simp
  then have "unat (totalSize (inputs2 c)) = total_bytes (inputs2 c)" by (rule unat_totalSize)
  moreover have "unat (maxGrandparentOverlapBytes (vs_opts vs) (level c + 1))
      = 10 * unat (vs_opts vs (level c + 1))"
    using nowrap by (rule unat_limit10)
  ultimately have "totalSize (inputs2 c) \<le> maxGrandparentOverlapBytes (vs_opts vs) (level c + 1)"
    using small by (simp add: word_le_nat_alt)
  then show ?thesis using pick one none by (simp add: compact1_def Let_def)
qed

lemma pick_V6: "pickCompaction overlaps ikeyRange (mkVersionSet V6) =
  Inr (Some \<lparr>c_version = V6, level = 1, inputs0 = [mkFile 5 100 [0x61] [0x63]], inputs1 = [],
      inputs2 = [mkFile 9 500 [0x61] [0x7a]]\<rparr>)"
  by (simp add: pickCompaction_def mkVersionSet_def V6_def setupOtherInputs_def Let_def
      ikeyRange_def grow_def overlaps_def mkFile_def UserKey_MakeInternalKey compare3_def)

text \<open>
  The theorem at the version \<open>V6\<close>: the level-1 file 5 moves to level 2 past a 500-byte
  grandparent, with a target file size of 2 MiB.
\<close>

theorem compact1_trivial_move_witness:
  "pickCompaction overlaps ikeyRange (mkVersionSet V6) =
     Inr (Some \<lparr>c_version = V6, level = 1, inputs0 = [mkFile 5 100 [0x61] [0x63]], inputs1 = [],
        inputs2 = [mkFile 9 500 [0x61] [0x7a]]\<rparr>)
   \<and> total_bytes [mkFile 9 500 [0x61] [0x7a]] = 500
   \<and> unat (vs_opts (mkVersionSet V6) 2) = 2097152
   \<and> compact1 overlaps ikeyRange (mkVersionSet V6) =
     Inr (TrivialMove \<lparr>deletedFiles = [(1, 5) \<mapsto> True],
        newFiles = [(2, mkFile 5 100 [0x61] [0x63])]\<rparr>)"
proof -
  let ?c = "\<lparr>c_version = V6, level = 1, inputs0 = [mkFile 5 100 [0x61] [0x63]], inputs1 = [],
        inputs2 = [mkFile 9 500 [0x61] [0x7a]]\<rparr>"
  have tb: "total_bytes [mkFile 9 500 [0x61] [0x7a]] = 500"
    by (simp add: total_bytes_def mkFile_def)
  have o: "unat (vs_opts (mkVersionSet V6) l) = 2097152" for l by (simp add: mkVersionSet_def)
  have "compact1 overlaps ikeyRange (mkVersionSet V6) =
     Inr (TrivialMove
       \<lparr>deletedFiles = [(level ?c, fileNum (hd (inputs0 ?c))) \<mapsto> True],
        newFiles = [(level ?c + 1, hd (inputs0 ?c))]\<rparr>)"
    using pick_V6
    by (rule compact1_trivial_move) (simp_all add: tb o)
  then show ?thesis using pick_V6 tb o by (simp add: mkFile_def)
qed

lemma f_defs:
  "size_f (mkFile n sz lo hi) = sz" "UserKey (smallest (mkFile n sz lo hi)) = lo"
  "UserKey (largest (mkFile n sz lo hi)) = hi"
  by (simp_all add: mkFile_def UserKey_MakeInternalKey)

lemma grow0_C7:
  "grow0_of overlaps (mkVersionSet (V7 l2)) (C7 l2 in1)
      (MakeInternalKey [0x61] 2 InternalKeyKindSet) (MakeInternalKey [0x63] 1 InternalKeyKindSet)
   = [mkFile 5 100 [0x61] [0x63], mkFile 6 100 [0x63] [0x66]]"
  by (simp add: grow0_of_def overlaps_def C7_def V7_def mkVersionSet_def f_defs
      UserKey_MakeInternalKey compare3_def)

lemma grow0_C7e:
  "grow0_of overlaps (mkVersionSet (V7 l2)) (C7 l2 in1)
      (MakeInternalKey [0x61] 2 InternalKeyKindSet) (MakeInternalKey [0x65] 1 InternalKeyKindSet)
   = [mkFile 5 100 [0x61] [0x63], mkFile 6 100 [0x63] [0x66]]"
  by (simp add: grow0_of_def overlaps_def C7_def V7_def mkVersionSet_def f_defs
      UserKey_MakeInternalKey compare3_def)

lemma ikr_C7: "ikeyRange compare3 [mkFile 5 100 [0x61] [0x63], mkFile 6 100 [0x63] [0x66]] []
   = (MakeInternalKey [0x61] 2 InternalKeyKindSet, MakeInternalKey [0x66] 1 InternalKeyKindSet)"
  by (simp add: ikeyRange_def InternalCompare_def mkFile_def UserKey_MakeInternalKey compare3_def)

lemma grow1_C7_empty:
  "grow1_of overlaps ikeyRange (mkVersionSet (V7 [])) (C7 [] [])
      (MakeInternalKey [0x61] 2 InternalKeyKindSet) (MakeInternalKey [0x63] 1 InternalKeyKindSet)
   = []"
  by (simp add: grow1_of_def grow0_C7 Let_def)
     (simp add: mkVersionSet_def ikr_C7 overlaps_def C7_def V7_def)

lemma grow1_C7_one:
  "grow1_of overlaps ikeyRange (mkVersionSet (V7 [mkFile 8 500 [0x62] [0x65]]))
      (C7 [mkFile 8 500 [0x62] [0x65]] [mkFile 8 500 [0x62] [0x65]])
      (MakeInternalKey [0x61] 2 InternalKeyKindSet) (MakeInternalKey [0x65] 1 InternalKeyKindSet)
   = [mkFile 8 500 [0x62] [0x65]]"
  by (simp add: grow1_of_def grow0_C7e Let_def)
     (simp add: mkVersionSet_def ikr_C7 overlaps_def C7_def V7_def f_defs UserKey_MakeInternalKey
        compare3_def)

text \<open>
  Claim C7, as the code has it. \<open>grow0\<close> is the level's files overlapping the joint range
  and \<open>grow1\<close> the next level's files overlapping the range of \<open>grow0\<close>. \<^verbatim>\<open>grow\<close>
  replaces \<^verbatim>\<open>inputs[0]\<close> by \<open>grow0\<close> and \<^verbatim>\<open>inputs[1]\<close> by \<open>grow1\<close> when \<^verbatim>\<open>inputs[1]\<close> is not
  empty, \<open>grow0\<close> has more files than \<^verbatim>\<open>inputs[0]\<close>, the sizes of \<open>grow0\<close> and
  \<^verbatim>\<open>inputs[1]\<close> sum to less than \<open>25 \<times> target_file_size(L + 1)\<close>, and \<open>grow1\<close> has as many
  files as \<^verbatim>\<open>inputs[1]\<close>. It leaves both lists unchanged when \<^verbatim>\<open>inputs[1]\<close> is empty, or
  \<open>grow0\<close> has no more files than \<^verbatim>\<open>inputs[0]\<close>, or the sum is more than the limit, or
  \<open>grow1\<close> has another number of files. (A sum equal to the limit is left open here.)
  The sums and the limit are computed in 64 bits and are assumed not to wrap.
\<close>

theorem grow_when_room:
  assumes nowrap: "total_bytes (grow0_of ov vs c sm la) + total_bytes (inputs1 c) < 2 ^ 64"
      "25 * unat (vs_opts vs (level c + 1)) < 2 ^ 64"
  shows "(inputs1 c \<noteq> [] \<and> length (inputs0 c) < length (grow0_of ov vs c sm la)
          \<and> total_bytes (grow0_of ov vs c sm la) + total_bytes (inputs1 c)
              < 25 * unat (vs_opts vs (level c + 1))
          \<and> length (grow1_of ov ikr vs c sm la) = length (inputs1 c)
          \<longrightarrow> grow ov ikr vs c sm la
              = (c\<lparr>inputs0 := grow0_of ov vs c sm la, inputs1 := grow1_of ov ikr vs c sm la\<rparr>, True))
       \<and> (inputs1 c = [] \<or> length (grow0_of ov vs c sm la) \<le> length (inputs0 c)
          \<or> 25 * unat (vs_opts vs (level c + 1))
              < total_bytes (grow0_of ov vs c sm la) + total_bytes (inputs1 c)
          \<or> length (grow1_of ov ikr vs c sm la) \<noteq> length (inputs1 c)
          \<longrightarrow> grow ov ikr vs c sm la = (c, False))"
proof -
  define g0 where "g0 = grow0_of ov vs c sm la"
  define g1 where "g1 = grow1_of ov ikr vs c sm la"
  define big where "big \<longleftrightarrow> expandedCompactionByteSizeLimit (vs_opts vs) (level c + 1)
        \<le> totalSize g0 + totalSize (inputs1 c)"
  have t: "unat (totalSize g0 + totalSize (inputs1 c)) = total_bytes g0 + total_bytes (inputs1 c)"
    unfolding g0_def using nowrap(1) by (rule unat_totalSize_add)
  have l: "unat (expandedCompactionByteSizeLimit (vs_opts vs) (level c + 1))
      = 25 * unat (vs_opts vs (level c + 1))"
    using nowrap(2) by (rule unat_limit25)
  have big_iff: "big \<longleftrightarrow> 25 * unat (vs_opts vs (level c + 1))
        \<le> total_bytes g0 + total_bytes (inputs1 c)"
    by (simp only: big_def word_le_nat_alt t l)
  have G: "grow ov ikr vs c sm la =
     (if inputs1 c = [] then (c, False)
      else if length g0 \<le> length (inputs0 c) then (c, False)
      else if big then (c, False)
      else if length g1 \<noteq> length (inputs1 c) then (c, False)
      else (c\<lparr>inputs0 := g0, inputs1 := g1\<rparr>, True))"
    by (simp add: grow_def Let_def g0_def g1_def big_def grow1_of_def grow0_of_def
        split: prod.splits)
  show ?thesis
    unfolding g0_def [symmetric] g1_def [symmetric] G
    using big_iff by auto
qed

text \<open>
  The theorem at two compactions of the level-1 file \<open>a..c\<close> of \<open>V7\<close>: with the level-2
  file \<open>b..e\<close> as \<^verbatim>\<open>inputs[1]\<close> the inputs grow by the level-1 file \<open>c..f\<close>; with an empty
  level 2 they stay as they are.
\<close>

theorem grow_when_room_witness:
  "grow overlaps ikeyRange (mkVersionSet (V7 [mkFile 8 500 [0x62] [0x65]]))
      (C7 [mkFile 8 500 [0x62] [0x65]] [mkFile 8 500 [0x62] [0x65]])
      (MakeInternalKey [0x61] 2 InternalKeyKindSet) (MakeInternalKey [0x65] 1 InternalKeyKindSet)
    = ((C7 [mkFile 8 500 [0x62] [0x65]] [mkFile 8 500 [0x62] [0x65]])
         \<lparr>inputs0 := [mkFile 5 100 [0x61] [0x63], mkFile 6 100 [0x63] [0x66]],
          inputs1 := [mkFile 8 500 [0x62] [0x65]]\<rparr>, True)
   \<and> grow overlaps ikeyRange (mkVersionSet (V7 [])) (C7 [] [])
        (MakeInternalKey [0x61] 2 InternalKeyKindSet) (MakeInternalKey [0x63] 1 InternalKeyKindSet)
      = (C7 [] [], False)"
proof -
  let ?h = "mkFile 8 500 [0x62] [0x65] :: bytes fileMetadata"
  let ?sm = "MakeInternalKey [0x61] 2 InternalKeyKindSet :: bytes InternalKey"
  let ?la = "MakeInternalKey [0x65] 1 InternalKeyKindSet :: bytes InternalKey"
  let ?lc = "MakeInternalKey [0x63] 1 InternalKeyKindSet :: bytes InternalKey"
  have o: "unat (vs_opts (mkVersionSet v) l) = 2097152" for v l
    by (simp add: mkVersionSet_def)
  have i1: "inputs1 (C7 l2 in1) = in1" "inputs0 (C7 l2 in1) = [mkFile 5 100 [0x61] [0x63]]" for l2 in1
    by (simp_all add: C7_def)
  have A: "grow overlaps ikeyRange (mkVersionSet (V7 [?h])) (C7 [?h] [?h]) ?sm ?la
    = ((C7 [?h] [?h])\<lparr>inputs0 := grow0_of overlaps (mkVersionSet (V7 [?h])) (C7 [?h] [?h]) ?sm ?la,
          inputs1 := grow1_of overlaps ikeyRange (mkVersionSet (V7 [?h])) (C7 [?h] [?h]) ?sm ?la\<rparr>, True)"
    by (rule grow_when_room [THEN conjunct1, rule_format])
       (simp_all add: grow0_C7e grow1_C7_one o i1 total_bytes_def f_defs)
  have B: "grow overlaps ikeyRange (mkVersionSet (V7 [])) (C7 [] []) ?sm ?lc = (C7 [] [], False)"
    by (rule grow_when_room [THEN conjunct2, rule_format])
       (simp_all add: grow0_C7 grow1_C7_empty o i1 total_bytes_def f_defs)
  show ?thesis using A B by (simp add: grow0_C7e grow1_C7_one)
qed

text \<open>
  Claim C7 as stated fails where \<^verbatim>\<open>inputs[1]\<close> is empty: growing by the touching file
  \<open>c..f\<close> would leave the number of overlapping level-2 files unchanged (none before, none
  after) and the total size (200 bytes) is far below the limit, yet \<^verbatim>\<open>grow\<close> returns false
  and leaves the inputs unchanged.
\<close>

theorem grow_empty_next_level_counterexample:
  "length (inputs0 (C7 [] [])) <
     length (grow0_of overlaps (mkVersionSet (V7 [])) (C7 [] [])
        (MakeInternalKey [0x61] 2 InternalKeyKindSet) (MakeInternalKey [0x63] 1 InternalKeyKindSet))
   \<and> length (grow1_of overlaps ikeyRange (mkVersionSet (V7 [])) (C7 [] [])
        (MakeInternalKey [0x61] 2 InternalKeyKindSet) (MakeInternalKey [0x63] 1 InternalKeyKindSet))
      = length (inputs1 (C7 [] []))
   \<and> total_bytes (grow0_of overlaps (mkVersionSet (V7 [])) (C7 [] [])
        (MakeInternalKey [0x61] 2 InternalKeyKindSet) (MakeInternalKey [0x63] 1 InternalKeyKindSet))
      + total_bytes (inputs1 (C7 [] [])) = 200
   \<and> unat (vs_opts (mkVersionSet (V7 [])) 2) = 2097152
   \<and> grow overlaps ikeyRange (mkVersionSet (V7 [])) (C7 [] [])
        (MakeInternalKey [0x61] 2 InternalKeyKindSet) (MakeInternalKey [0x63] 1 InternalKeyKindSet)
      = (C7 [] [], False)"
proof -
  have "inputs1 (C7 [] []) = []" by (simp add: C7_def)
  then have "grow overlaps ikeyRange (mkVersionSet (V7 [])) (C7 [] [])
        (MakeInternalKey [0x61] 2 InternalKeyKindSet) (MakeInternalKey [0x63] 1 InternalKeyKindSet)
      = (C7 [] [], False)"
    by (simp add: grow_def)
  then show ?thesis
    unfolding grow0_C7 grow1_C7_empty
    by (simp add: C7_def total_bytes_def f_defs mkVersionSet_def)
qed

section \<open>Properties of the removal of obsolete files\<close>





lemma p1: "parseDBFilename ''000005.sst'' = Some (fileTypeTable, 5)"
  by (simp add: parseDBFilename_def parse_fileNum_def)
lemma p2: "parseDBFilename ''000008.sst'' = Some (fileTypeTable, 8)"
  by (simp add: parseDBFilename_def parse_fileNum_def)
lemma p3: "parseDBFilename ''000003.log'' = Some (fileTypeLog, 3)"
  by (simp add: parseDBFilename_def parse_fileNum_def)





section \<open>Replay of a log that does not fit one memtable\<close>

lemma entries_one:
  assumes "next kmax r = ([], Some e)"
  shows "entries kmax r = [e]"
proof -
  have "next kmax [] = ([], None)" by (simp add: next_def)
  then have "entries kmax [] = []" by (rule entries_None)
  with entries_Some [OF assms] show ?thesis by simp
qed

lemma replay_loop_arena_full:
  assumes "batchHeaderLen \<le> length buf"
    and "refreshMemTableSize mes kmax (newBatch\<lparr>data := buf\<rparr>) = Inr b"
    and "mt_prepare (case mem of None \<Rightarrow> newMemTable cap | Some m \<Rightarrow> m) b = Inl ErrArenaFull"
  shows "replay_loop mes kmax cap (buf # rs) (mem, s) = Inl (Panic ''arenaskl: arena is full'')"
  using assms by (simp add: Let_def)

text \<open>
  Claim C2 at a failing input: a log of two records, the batches \<^verbatim>\<open>Set("k", "v")\<close> with
  sequence number 0 and \<^verbatim>\<open>Set("l", "w")\<close> with sequence number 1, each of memtable size 2.
  With a memtable capacity of 4 both are applied and the memtable is written as a level-0
  table. With a capacity of 3 the second \<^verbatim>\<open>prepare\<close> returns \<^verbatim>\<open>ErrArenaFull\<close>, and
  \<^verbatim>\<open>replayWAL\<close> panics: the memtable is not flushed and replay does not continue.
\<close>

theorem replayWAL_arena_full_panics:
  "replayWAL plainEntrySize InternalKeyKindMax 4
     [[0, 0, 0, 0, 0, 0, 0, 0, 1, 0, 0, 0, 1, 1, 0x6b, 1, 0x76],
      [1, 0, 0, 0, 0, 0, 0, 0, 1, 0, 0, 0, 1, 1, 0x6c, 1, 0x77]]
     = Inr (2, Some [(MakeInternalKey [0x6b] 0 InternalKeyKindSet, Some [0x76]),
                     (MakeInternalKey [0x6c] 1 InternalKeyKindSet, Some [0x77])])
   \<and> replayWAL plainEntrySize InternalKeyKindMax 3
     [[0, 0, 0, 0, 0, 0, 0, 0, 1, 0, 0, 0, 1, 1, 0x6b, 1, 0x76],
      [1, 0, 0, 0, 0, 0, 0, 0, 1, 0, 0, 0, 1, 1, 0x6c, 1, 0x77]]
     = Inl (Panic ''arenaskl: arena is full'')"
proof -
  let ?r1 = "[0, 0, 0, 0, 0, 0, 0, 0, 1, 0, 0, 0, 1, 1, 0x6b, 1, 0x76] :: bytes"
  let ?r2 = "[1, 0, 0, 0, 0, 0, 0, 0, 1, 0, 0, 0, 1, 1, 0x6c, 1, 0x77] :: bytes"
  have n1: "next InternalKeyKindMax [1, 1, 0x6b, 1, 0x76] = ([], Some (InternalKeyKindSet, [0x6b], Some [0x76]))"
    by code_simp
  have n2: "next InternalKeyKindMax [1, 1, 0x6c, 1, 0x77] = ([], Some (InternalKeyKindSet, [0x6c], Some [0x77]))"
    by code_simp
  note e1 = entries_one [OF n1] and e2 = entries_one [OF n2]
  have i1: "iter (newBatch\<lparr>data := ?r1\<rparr>) = Inr [1, 1, 0x6b, 1, 0x76]"
    and i2: "iter (newBatch\<lparr>data := ?r2\<rparr>) = Inr [1, 1, 0x6c, 1, 0x77]"
    by (simp_all add: iter_def batchHeaderLen_def)
  have m1: "refreshMemTableSize plainEntrySize InternalKeyKindMax (newBatch\<lparr>data := ?r1\<rparr>)
      = Inr (newBatch\<lparr>data := ?r1, memTableSize := 2\<rparr>)"
    and m2: "refreshMemTableSize plainEntrySize InternalKeyKindMax (newBatch\<lparr>data := ?r2\<rparr>)
      = Inr (newBatch\<lparr>data := ?r2, memTableSize := 2\<rparr>)"
    by (simp_all add: refreshMemTableSize_def i1 i2 e1 e2 plainEntrySize_def)
  have j1: "iter (newBatch\<lparr>data := ?r1, memTableSize := 2\<rparr>) = Inr [1, 1, 0x6b, 1, 0x76]"
    and j2: "iter (newBatch\<lparr>data := ?r2, memTableSize := 2\<rparr>) = Inr [1, 1, 0x6c, 1, 0x77]"
    by (simp_all add: iter_def batchHeaderLen_def)
  have s1: "seqNum (newBatch\<lparr>data := ?r1, memTableSize := 2\<rparr>) = 0"
    "count (newBatch\<lparr>data := ?r1, memTableSize := 2\<rparr>) = 1"
    "seqNum (newBatch\<lparr>data := ?r2, memTableSize := 2\<rparr>) = 1"
    "count (newBatch\<lparr>data := ?r2, memTableSize := 2\<rparr>) = 1"
    by (simp_all add: seqNum_def seqNumData_def count_def countData_def)
  have A: "replayWAL plainEntrySize InternalKeyKindMax 4 [?r1, ?r2]
     = Inr (2, Some [(MakeInternalKey [0x6b] 0 InternalKeyKindSet, Some [0x76]),
                     (MakeInternalKey [0x6c] 1 InternalKeyKindSet, Some [0x77])])"
    by (simp add: replayWAL_def batchHeaderLen_def m1 m2 s1 Let_def newMemTable_def mt_prepare_def
        mt_apply_def j1 j2 e1 e2 mt_unref_def mt_Empty_def word_less_nat_alt)
  have B: "replayWAL plainEntrySize InternalKeyKindMax 3 [?r1, ?r2]
     = Inl (Panic ''arenaskl: arena is full'')"
    by (simp add: replayWAL_def batchHeaderLen_def m1 m2 s1 Let_def newMemTable_def mt_prepare_def
        mt_apply_def j1 j2 e1 e2 mt_unref_def mt_Empty_def word_less_nat_alt)
  from A B show ?thesis by simp
qed

section \<open>Seeking in a raw block\<close>


end
